theory Spec2Isabelle
  imports Complex_Main "HOL-Library.AList"
begin

section \<open>Progress accounting (lib/progress.py)\<close>

text \<open>
  Timestamps are seconds as exact rationals; Python floats (durations, the success rate)
  are idealised as exact rationals as well, so \<open>py_round2\<close> rounds half to even on the
  exact value.
\<close>

type_synonym timestamp = rat

record IngestionStats =
  start_time :: timestamp
  end_time :: "timestamp option"
  total_items :: int
  processed_items :: int
  successful_items :: int
  failed_items :: int
  skipped_items :: int
  errors :: "string list"

definition new_stats :: "timestamp \<Rightarrow> IngestionStats" where
  "new_stats now = \<lparr> start_time = now, end_time = None, total_items = 0,
     processed_items = 0, successful_items = 0, failed_items = 0, skipped_items = 0,
     errors = [] \<rparr>"

definition mark_complete :: "timestamp \<Rightarrow> IngestionStats \<Rightarrow> IngestionStats" where
  "mark_complete now s = s\<lparr> end_time := Some now \<rparr>"

definition duration :: "timestamp \<Rightarrow> IngestionStats \<Rightarrow> rat" where
  "duration now s = (case end_time s of None \<Rightarrow> now - start_time s
                                       | Some e \<Rightarrow> e - start_time s)"

definition success_rate :: "IngestionStats \<Rightarrow> rat" where
  "success_rate s = (if processed_items s = 0 then 0
     else (of_int (successful_items s) / of_int (processed_items s)) * 100)"

definition py_round2 :: "rat \<Rightarrow> rat" where
  "py_round2 x = (let y = x * 100; f = \<lfloor>y\<rfloor>; d = y - of_int f in
     of_int (if d < 1 / 2 then f else if 1 / 2 < d then f + 1
             else if even f then f else f + 1) / 100)"

text \<open>The dictionary built by \<open>to_dict\<close>: one field per key, in the source's order.\<close>

record stats_dict =
  d_start_time :: timestamp
  d_end_time :: "timestamp option"
  d_duration_seconds :: rat
  d_total_items :: int
  d_processed_items :: int
  d_successful_items :: int
  d_failed_items :: int
  d_skipped_items :: int
  d_success_rate :: rat
  d_error_count :: nat

definition to_dict :: "timestamp \<Rightarrow> IngestionStats \<Rightarrow> stats_dict" where
  "to_dict now s = \<lparr> d_start_time = start_time s, d_end_time = end_time s,
     d_duration_seconds = py_round2 (duration now s),
     d_total_items = total_items s, d_processed_items = processed_items s,
     d_successful_items = successful_items s, d_failed_items = failed_items s,
     d_skipped_items = skipped_items s,
     d_success_rate = py_round2 (success_rate s),
     d_error_count = length (errors s) \<rparr>"

text \<open>
  The reporter: \<open>progress_bar\<close> is the tqdm bar when one is open (its total and its
  position), \<open>logged\<close> the messages this reporter has sent to \<open>logger.error\<close>.
  The source tests the bar with \<open>if self._progress_bar\<close>; a tqdm bar is true when its
  total is positive.
\<close>

record ProgressReporter =
  verbose :: bool
  stats :: IngestionStats
  progress_bar :: "(int \<times> int) option"
  logged :: "string list"

definition new_reporter :: "bool \<Rightarrow> timestamp \<Rightarrow> ProgressReporter" where
  "new_reporter v now = \<lparr> verbose = v, stats = new_stats now, progress_bar = None,
     logged = [] \<rparr>"

definition track_enter :: "int \<Rightarrow> ProgressReporter \<Rightarrow> ProgressReporter" where
  "track_enter n r =
     (let r1 = r\<lparr> stats := (stats r)\<lparr> total_items := n \<rparr> \<rparr>
      in if verbose r1 then r1\<lparr> progress_bar := Some (n, 0) \<rparr> else r1)"

definition bar_true :: "(int \<times> int) option \<Rightarrow> bool" where
  "bar_true bar = (case bar of None \<Rightarrow> False | Some (tot, pos) \<Rightarrow> 0 < tot)"

definition track_exit :: "timestamp \<Rightarrow> ProgressReporter \<Rightarrow> ProgressReporter" where
  "track_exit now r =
     (if bar_true (progress_bar r) then r\<lparr> progress_bar := None \<rparr> else r)
       \<lparr> stats := mark_complete now (stats r) \<rparr>"

definition update :: "int \<Rightarrow> ProgressReporter \<Rightarrow> ProgressReporter" where
  "update n r =
     (let r1 = r\<lparr> stats := (stats r)\<lparr> processed_items := processed_items (stats r) + n \<rparr> \<rparr>
      in if bar_true (progress_bar r1)
         then r1\<lparr> progress_bar := map_option (\<lambda>(tot, pos). (tot, pos + n)) (progress_bar r1) \<rparr>
         else r1)"

definition record_success :: "ProgressReporter \<Rightarrow> ProgressReporter" where
  "record_success r =
     update 1 (r\<lparr> stats := (stats r)\<lparr> successful_items := successful_items (stats r) + 1 \<rparr> \<rparr>)"

definition record_failure :: "ProgressReporter \<Rightarrow> ProgressReporter" where
  "record_failure r =
     update 1 (r\<lparr> stats := (stats r)\<lparr> failed_items := failed_items (stats r) + 1 \<rparr> \<rparr>)"

definition record_skip :: "ProgressReporter \<Rightarrow> ProgressReporter" where
  "record_skip r =
     update 1 (r\<lparr> stats := (stats r)\<lparr> skipped_items := skipped_items (stats r) + 1 \<rparr> \<rparr>)"

definition record_error :: "string \<Rightarrow> ProgressReporter \<Rightarrow> ProgressReporter" where
  "record_error error r =
     (let r1 = r\<lparr> stats := (stats r)\<lparr> errors := errors (stats r) @ [error] \<rparr> \<rparr>
      in if length (errors (stats r1)) \<le> 10 then r1\<lparr> logged := logged r1 @ [error] \<rparr>
         else r1)"

definition get_stats :: "timestamp \<Rightarrow> ProgressReporter \<Rightarrow> stats_dict" where
  "get_stats now r = to_dict now (stats r)"


text \<open>
  \<open>print_summary\<close> returns the text of each \<open>print\<close> call in order. \<open>str_int\<close> is
  Python's \<open>str\<close> on an int; \<open>fmt\<close> stands for \<open>str\<close> on a float.
\<close>

definition digit_char :: "nat \<Rightarrow> char" where
  "digit_char d = ''0123456789'' ! d"

fun str_nat :: "nat \<Rightarrow> string" where
  "str_nat n = (if n < 10 then [digit_char n] else str_nat (n div 10) @ [digit_char (n mod 10)])"

declare str_nat.simps [simp del]

definition str_int :: "int \<Rightarrow> string" where
  "str_int i = (if i < 0 then CHR ''-'' # str_nat (nat (- i)) else str_nat (nat i))"


definition newline :: string where
  "newline = [CHR 0x0A]"




section \<open>The database sink (lib/database.py)\<close>

text \<open>
  Exceptions are values. Every constructor stands for a class derived from Python's
  \<open>Exception\<close>, the class the handlers of the source catch.
\<close>

datatype py_exn =
    AttributeError | TypeError | KeyError | IndexError | ValueError
  | JSONDecodeError | ConnectionError | HTTPError nat | RetryError py_exn
  | PoolError | ProgrammingError | DatabaseError string

text \<open>
  A statement as the sink hands it to the driver: the pieces the source formats into the
  SQL text, and the rows of one \<open>execute_values\<close> page. \<open>sql_text\<close> is the query
  string the source builds.
\<close>

datatype 'v stmt =
    Query string "'v list option"
  | InsertValues string "string list" "string option" "'v list list"
  | UpsertValues string "string list" "string list" "string list" "'v list list"

fun join :: "string \<Rightarrow> string list \<Rightarrow> string" where
  "join sep [] = []"
| "join sep [x] = x"
| "join sep (x # y # ys) = x @ sep @ join sep (y # ys)"

definition indent12 :: string where
  "indent12 = newline @ replicate 12 CHR '' ''"

fun sql_text :: "'v stmt \<Rightarrow> string" where
  "sql_text (Query q ps) = q"
| "sql_text (InsertValues table columns on_conflict page) =
     indent12 @ ''INSERT INTO '' @ table @ '' ('' @ join '', '' columns @ '')''
     @ indent12 @ ''VALUES %s''
     @ indent12 @ (case on_conflict of None \<Rightarrow> []
                   | Some oc \<Rightarrow> if oc = [] then [] else '' ON CONFLICT '' @ oc)
     @ newline @ replicate 8 CHR '' ''"
| "sql_text (UpsertValues table columns conflict_columns update_columns page) =
     indent12 @ ''INSERT INTO '' @ table @ '' ('' @ join '', '' columns @ '')''
     @ indent12 @ ''VALUES %s''
     @ indent12 @ ''ON CONFLICT ('' @ join '', '' conflict_columns @ '')''
     @ indent12 @ ''DO UPDATE SET ''
       @ join '', '' (map (\<lambda>col. col @ '' = EXCLUDED.'' @ col) update_columns)
     @ newline @ replicate 8 CHR '' ''"

text \<open>
  The database engine is outside the repository. \<open>exec\<close> is its execution of one
  statement inside the open transaction: it raises, or gives the transaction's new
  contents, the result set (if the statement has one) and the row count.
  \<open>commit_error\<close> says whether committing given contents raises. Statements and commits
  are where database errors surface; \<open>rollback\<close>, \<open>cursor.close\<close> and
  \<open>putconn\<close> are modelled as calls that complete.
\<close>

record ('s, 'v) engine =
  exec :: "'v stmt \<Rightarrow> 's \<Rightarrow> py_exn + ('s \<times> 'v list list option \<times> int)"
  commit_error :: "'s \<Rightarrow> py_exn option"

datatype db_event =
  EvGetConn | EvCursor bool | EvExecute string | EvCommit | EvRollback | EvClose | EvPutConn

text \<open>
  The sink's world: the committed contents, the number of pool connections handed out,
  and the driver calls made so far.
\<close>

record 's world =
  committed :: 's
  busy :: nat
  trace :: "db_event list"

definition maxconn :: nat where
  "maxconn = 10"

definition log_ev :: "db_event list \<Rightarrow> 's world \<Rightarrow> 's world" where
  "log_ev evs w = w\<lparr> trace := trace w @ evs \<rparr>"

text \<open>The cursor a unit of work receives: the transaction's view and the last outcome.\<close>

record ('s, 'v) cursor =
  cur_db :: 's
  rowcount :: int
  result_set :: "'v list list option"
  issued :: "string list"

definition new_cursor :: "'s \<Rightarrow> ('s, 'v) cursor" where
  "new_cursor s = \<lparr> cur_db = s, rowcount = - 1, result_set = None, issued = [] \<rparr>"

definition cursor_execute ::
  "('s, 'v) engine \<Rightarrow> 'v stmt \<Rightarrow> ('s, 'v) cursor \<Rightarrow> (py_exn + unit) \<times> ('s, 'v) cursor" where
  "cursor_execute eng st c =
     (let c1 = c\<lparr> issued := issued c @ [sql_text st] \<rparr> in
      case exec eng st (cur_db c) of
        Inl e \<Rightarrow> (Inl e, c1)
      | Inr (s', rs, n) \<Rightarrow> (Inr (), c1\<lparr> cur_db := s', rowcount := n, result_set := rs \<rparr>))"

definition fetchall :: "('s, 'v) cursor \<Rightarrow> py_exn + 'v list list" where
  "fetchall c = (case result_set c of None \<Rightarrow> Inl ProgrammingError | Some rs \<Rightarrow> Inr rs)"

text \<open>
  \<open>get_connection\<close>: \<open>getconn\<close> raises \<open>PoolError\<close> when the pool is exhausted;
  otherwise the body runs with a connection and \<open>putconn\<close> runs in the \<open>finally\<close>.
\<close>

definition get_connection ::
  "('s world \<Rightarrow> (py_exn + 'a) \<times> 's world) \<Rightarrow> 's world \<Rightarrow> (py_exn + 'a) \<times> 's world" where
  "get_connection body w =
     (if maxconn \<le> busy w then (Inl PoolError, w)
      else let (r, w1) = body (log_ev [EvGetConn] (w\<lparr> busy := busy w + 1 \<rparr>))
           in (r, log_ev [EvPutConn] (w1\<lparr> busy := busy w1 - 1 \<rparr>)))"

text \<open>
  \<open>get_cursor\<close>: the body runs on a cursor; then \<open>commit\<close>. An exception of the body
  or of the commit is caught, the transaction is rolled back and the exception re-raised;
  the cursor is closed in the \<open>finally\<close>.
\<close>

definition get_cursor ::
  "('s, 'v) engine \<Rightarrow> bool \<Rightarrow> (('s, 'v) cursor \<Rightarrow> (py_exn + 'a) \<times> ('s, 'v) cursor)
     \<Rightarrow> 's world \<Rightarrow> (py_exn + 'a) \<times> 's world" where
  "get_cursor eng dict_cursor body w =
     get_connection (\<lambda>w1.
       let (r, c) = body (new_cursor (committed w1));
           w2 = log_ev (EvCursor dict_cursor # map EvExecute (issued c)) w1
       in case r of
            Inr v \<Rightarrow>
              (case commit_error eng (cur_db c) of
                 None \<Rightarrow> (Inr v, log_ev [EvCommit, EvClose] (w2\<lparr> committed := cur_db c \<rparr>))
               | Some e \<Rightarrow> (Inl e, log_ev [EvRollback, EvClose] w2))
          | Inl e \<Rightarrow> (Inl e, log_ev [EvRollback, EvClose] w2)) w"

definition execute_query_body ::
  "('s, 'v) engine \<Rightarrow> string \<Rightarrow> 'v list option \<Rightarrow> bool \<Rightarrow> ('s, 'v) cursor
     \<Rightarrow> (py_exn + 'v list list option) \<times> ('s, 'v) cursor" where
  "execute_query_body eng query params fetch c =
     (case cursor_execute eng (Query query params) c of
        (Inl e, c1) \<Rightarrow> (Inl e, c1)
      | (Inr u, c1) \<Rightarrow>
          if fetch then (case fetchall c1 of Inl e \<Rightarrow> (Inl e, c1) | Inr rs \<Rightarrow> (Inr (Some rs), c1))
          else (Inr None, c1))"

definition execute_query ::
  "('s, 'v) engine \<Rightarrow> string \<Rightarrow> 'v list option \<Rightarrow> bool \<Rightarrow> 's world
     \<Rightarrow> (py_exn + 'v list list option) \<times> 's world" where
  "execute_query eng query params fetch w =
     get_cursor eng True (execute_query_body eng query params fetch) w"

text \<open>
  \<open>execute_values\<close> (psycopg2) sends the rows in pages of 100, one statement per page;
  afterwards \<open>cursor.rowcount\<close> is the row count of the last statement.
\<close>

function chunks :: "nat \<Rightarrow> 'a list \<Rightarrow> 'a list list" where
  "chunks n xs = (if n = 0 \<or> xs = [] then [] else take n xs # chunks n (drop n xs))"
  by pat_completeness auto
termination
  by (relation "measure (\<lambda>(n, xs). length xs)") auto

declare chunks.simps [simp del]

fun execute_pages ::
  "('s, 'v) engine \<Rightarrow> ('v list list \<Rightarrow> 'v stmt) \<Rightarrow> 'v list list list \<Rightarrow> ('s, 'v) cursor
     \<Rightarrow> (py_exn + unit) \<times> ('s, 'v) cursor" where
  "execute_pages eng mk [] c = (Inr (), c)"
| "execute_pages eng mk (p # ps) c =
     (case cursor_execute eng (mk p) c of
        (Inl e, c1) \<Rightarrow> (Inl e, c1)
      | (Inr u, c1) \<Rightarrow> execute_pages eng mk ps c1)"

definition execute_values ::
  "('s, 'v) engine \<Rightarrow> ('v list list \<Rightarrow> 'v stmt) \<Rightarrow> 'v list list \<Rightarrow> ('s, 'v) cursor
     \<Rightarrow> (py_exn + unit) \<times> ('s, 'v) cursor" where
  "execute_values eng mk rows c = execute_pages eng mk (chunks 100 rows) c"

definition values_body ::
  "('s, 'v) engine \<Rightarrow> ('v list list \<Rightarrow> 'v stmt) \<Rightarrow> 'v list list \<Rightarrow> ('s, 'v) cursor
     \<Rightarrow> (py_exn + int) \<times> ('s, 'v) cursor" where
  "values_body eng mk rows c =
     (case execute_values eng mk rows c of
        (Inl e, c1) \<Rightarrow> (Inl e, c1)
      | (Inr u, c1) \<Rightarrow> (Inr (rowcount c1), c1))"

definition bulk_insert ::
  "('s, 'v) engine \<Rightarrow> string \<Rightarrow> string list \<Rightarrow> 'v list list \<Rightarrow> string option \<Rightarrow> 's world
     \<Rightarrow> (py_exn + int) \<times> 's world" where
  "bulk_insert eng table columns rows on_conflict w =
     (if rows = [] then (Inr 0, w)
      else get_cursor eng False (values_body eng (InsertValues table columns on_conflict) rows) w)"

definition upsert ::
  "('s, 'v) engine \<Rightarrow> string \<Rightarrow> string list \<Rightarrow> 'v list list \<Rightarrow> string list
     \<Rightarrow> string list option \<Rightarrow> 's world \<Rightarrow> (py_exn + int) \<times> 's world" where
  "upsert eng table columns rows conflict_columns update_columns w =
     (if rows = [] then (Inr 0, w)
      else let ucs = (case update_columns of
                        None \<Rightarrow> filter (\<lambda>col. col \<notin> set conflict_columns) columns
                      | Some u \<Rightarrow> u)
           in get_cursor eng False
                (values_body eng (UpsertValues table columns conflict_columns ucs) rows) w)"

section \<open>The upsert statement on a keyed table\<close>

text \<open>
  The meaning of the statement that \<open>upsert\<close> issues,
  \<open>INSERT INTO t (columns) VALUES ... ON CONFLICT (conflict_columns) DO UPDATE SET
  col = EXCLUDED.col, ...\<close>, is the database's, not the repository's. It is modelled
  after PostgreSQL for a table whose primary key is the conflict columns, as in every table
  the ingestion scripts upsert into. A value is \<open>'a option\<close> with \<open>None\<close> for NULL; a
  row gives each column its value (NULL for a column the statement does not name; column
  defaults and constraints other than the primary key are not tracked).
\<close>

type_synonym 'a row = "string \<Rightarrow> 'a option"

record 'a table =
  pkey :: "string list"
  trows :: "'a row list"

type_synonym 'a database = "string \<Rightarrow> 'a table option"

definition row_of :: "string list \<Rightarrow> 'a option list \<Rightarrow> 'a row" where
  "row_of columns vals col = (case map_of (zip columns vals) col of None \<Rightarrow> None | Some v \<Rightarrow> v)"

definition row_key :: "string list \<Rightarrow> 'a row \<Rightarrow> 'a option list" where
  "row_key cc r = map r cc"

definition set_excluded :: "string list \<Rightarrow> 'a row \<Rightarrow> 'a row \<Rightarrow> 'a row" where
  "set_excluded ucs x r = (\<lambda>col. if col \<in> set ucs then x col else r col)"

text \<open>One proposed row: update the stored row with the same key, or insert.\<close>

definition upsert_row :: "string list \<Rightarrow> string list \<Rightarrow> 'a row \<Rightarrow> 'a row list \<Rightarrow> 'a row list" where
  "upsert_row cc ucs x T =
     (if row_key cc x \<in> row_key cc ` set T
      then map (\<lambda>r. if row_key cc r = row_key cc x then set_excluded ucs x r else r) T
      else T @ [x])"

text \<open>
  A statement is rejected when its text does not parse (no conflict column, no column to
  set), when a row does not fit the column list, when a key value is NULL, or when two rows
  of the statement have the same key (a row cannot be affected twice by one statement).
\<close>

definition stmt_ok :: "string list \<Rightarrow> string list \<Rightarrow> string list \<Rightarrow> 'a option list list \<Rightarrow> bool" where
  "stmt_ok columns cc ucs page =
     (cc \<noteq> [] \<and> ucs \<noteq> [] \<and> distinct columns
      \<and> list_all (\<lambda>vals. length vals = length columns) page
      \<and> list_all (\<lambda>vals. None \<notin> set (row_key cc (row_of columns vals))) page
      \<and> distinct (map (\<lambda>vals. row_key cc (row_of columns vals)) page))"

definition target_ok :: "'a database \<Rightarrow> string \<Rightarrow> string list \<Rightarrow> bool" where
  "target_ok db table cc =
     (case db table of None \<Rightarrow> False | Some t \<Rightarrow> set (pkey t) = set cc)"

definition on_conflict_do_update ::
  "string \<Rightarrow> string list \<Rightarrow> string list \<Rightarrow> string list \<Rightarrow> 'a option list list \<Rightarrow> 'a database
     \<Rightarrow> py_exn + ('a database \<times> 'a option list list option \<times> int)" where
  "on_conflict_do_update table columns cc ucs page db =
     (case db table of
        None \<Rightarrow> Inl ProgrammingError
      | Some t \<Rightarrow>
          if set (pkey t) \<noteq> set cc then Inl ProgrammingError
          else if \<not> stmt_ok columns cc ucs page then Inl (DatabaseError ''rejected'')
          else Inr (db(table \<mapsto>
                      t\<lparr> trows := fold (upsert_row cc ucs) (map (row_of columns) page) (trows t) \<rparr>),
                    None, int (length page)))"

text \<open>
  An engine that runs upsert statements as above; \<open>other\<close> is its behaviour on every
  other statement and \<open>ce\<close> its commit.
\<close>

definition pg_engine ::
  "('a option stmt \<Rightarrow> 'a database
      \<Rightarrow> py_exn + ('a database \<times> 'a option list list option \<times> int))
     \<Rightarrow> ('a database \<Rightarrow> py_exn option) \<Rightarrow> ('a database, 'a option) engine" where
  "pg_engine other ce = \<lparr>
     exec = (\<lambda>st db. case st of
        UpsertValues table columns cc ucs page \<Rightarrow> on_conflict_do_update table columns cc ucs page db
      | _ \<Rightarrow> other st db),
     commit_error = ce \<rparr>"

text \<open>
  Two notions used in the proofs: what one proposed row does to one stored row, and the
  contents after a list of rows has been upserted into a table.
\<close>

definition absorb_one :: "string list \<Rightarrow> string list \<Rightarrow> 'a row \<Rightarrow> 'a row \<Rightarrow> 'a row" where
  "absorb_one cc ucs x r = (if row_key cc r = row_key cc x then set_excluded ucs x r else r)"

definition after_upsert ::
  "string \<Rightarrow> string list \<Rightarrow> string list \<Rightarrow> string list \<Rightarrow> 'a option list list \<Rightarrow> 'a database
     \<Rightarrow> 'a database" where
  "after_upsert table columns cc ucs rows db =
     (case db table of None \<Rightarrow> db
      | Some t \<Rightarrow> db(table \<mapsto>
          t\<lparr> trows := fold (upsert_row cc ucs) (map (row_of columns) rows) (trows t) \<rparr>))"

section \<open>Mapping bills to rows (scripts/congress/ingest_bills.py)\<close>

text \<open>
  A decoded JSON value, as \<open>response.json()\<close> gives it. An item is a JSON object, a list
  of key/value pairs; \<open>dict_get\<close> is \<open>d.get(k)\<close>.
\<close>

datatype json =
    JNull | JBool bool | JInt int | JFloat rat | JStr string
  | JList "json list" | JObj "(string \<times> json) list"

type_synonym item = "(string \<times> json) list"

fun truthy :: "json \<Rightarrow> bool" where
  "truthy JNull = False"
| "truthy (JBool b) = b"
| "truthy (JInt i) = (i \<noteq> 0)"
| "truthy (JFloat x) = (x \<noteq> 0)"
| "truthy (JStr s) = (s \<noteq> [])"
| "truthy (JList xs) = (xs \<noteq> [])"
| "truthy (JObj kvs) = (kvs \<noteq> [])"

definition dict_get :: "item \<Rightarrow> string \<Rightarrow> json" where
  "dict_get d k = (case map_of d k of None \<Rightarrow> JNull | Some v \<Rightarrow> v)"

definition dict_get_default :: "item \<Rightarrow> string \<Rightarrow> json \<Rightarrow> json" where
  "dict_get_default d k dflt = (case map_of d k of None \<Rightarrow> dflt | Some v \<Rightarrow> v)"

text \<open>\<open>v.get(k)\<close> on a value that need not be a dict, and \<open>v[0]\<close>.\<close>

fun value_get :: "json \<Rightarrow> string \<Rightarrow> py_exn + json" where
  "value_get (JObj d) k = Inr (dict_get d k)"
| "value_get v k = Inl AttributeError"

fun index0 :: "json \<Rightarrow> py_exn + json" where
  "index0 (JList (x # xs)) = Inr x"
| "index0 (JList []) = Inl IndexError"
| "index0 (JStr (c # cs)) = Inr (JStr [c])"
| "index0 (JStr []) = Inl IndexError"
| "index0 (JObj kvs) = Inl KeyError"
| "index0 v = Inl TypeError"

text \<open>
  Library functions the mapping calls, taken as parameters: \<open>strptime_ymd s\<close> is
  \<open>datetime.strptime(s, "%Y-%m-%d").date()\<close>, \<open>fromisoformat\<close> is
  \<open>datetime.fromisoformat\<close>, \<open>py_format\<close> formats a value inside an f-string and
  \<open>exn_str\<close> is \<open>str(e)\<close>.
\<close>

record ('d, 't) pylib =
  strptime_ymd :: "string \<Rightarrow> py_exn + 'd"
  fromisoformat :: "string \<Rightarrow> py_exn + 't"
  py_format :: "json \<Rightarrow> string"
  exn_str :: "py_exn \<Rightarrow> string"

datatype ('d, 't) cell = CStr string | CJson json | CDate 'd | CDateTime 't

definition replace_Z :: "string \<Rightarrow> string" where
  "replace_Z s = concat (map (\<lambda>c. if c = CHR ''Z'' then ''+00:00'' else [c]) s)"

definition opt_date :: "('d, 't) pylib \<Rightarrow> json \<Rightarrow> py_exn + ('d, 't) cell" where
  "opt_date lib v =
     (if truthy v
      then (case v of
              JStr s \<Rightarrow> (case strptime_ymd lib s of Inl e \<Rightarrow> Inl e | Inr d \<Rightarrow> Inr (CDate d))
            | _ \<Rightarrow> Inl TypeError)
      else Inr (CJson v))"

definition opt_datetime :: "('d, 't) pylib \<Rightarrow> json \<Rightarrow> py_exn + ('d, 't) cell" where
  "opt_datetime lib v =
     (if truthy v
      then (case v of
              JStr s \<Rightarrow> (case fromisoformat lib (replace_Z s) of
                           Inl e \<Rightarrow> Inl e | Inr t \<Rightarrow> Inr (CDateTime t))
            | _ \<Rightarrow> Inl AttributeError)
      else Inr (CJson v))"

definition and_then :: "'e + 'a \<Rightarrow> ('a \<Rightarrow> 'e + 'b) \<Rightarrow> 'e + 'b" where
  "and_then m f = (case m of Inl e \<Rightarrow> Inl e | Inr x \<Rightarrow> f x)"

text \<open>The body of the \<open>try\<close> block for one bill, up to the tuple appended to \<open>values\<close>.\<close>

definition map_bill :: "('d, 't) pylib \<Rightarrow> int \<Rightarrow> item \<Rightarrow> py_exn + ('d, 't) cell list" where
  "map_bill lib congress bill_data =
     and_then (if truthy (dict_get bill_data ''sponsors'')
               then index0 (dict_get_default bill_data ''sponsors'' (JList [JObj []]))
               else Inr (JObj [])) (\<lambda>sponsor.
     let latest_action = dict_get_default bill_data ''latestAction'' (JObj []) in
     and_then (value_get latest_action ''actionDate'') (\<lambda>lad.
     and_then (opt_date lib lad) (\<lambda>latest_action_date.
     and_then (opt_datetime lib (dict_get bill_data ''updateDate'')) (\<lambda>update_date.
     and_then (opt_datetime lib (dict_get bill_data ''updateDateIncludingText'')) (\<lambda>update_date_text.
     and_then (opt_date lib (dict_get bill_data ''introducedDate'')) (\<lambda>introduced_date.
     let bill_id = str_int congress @ ''-'' @ py_format lib (dict_get bill_data ''type'')
                     @ ''-'' @ py_format lib (dict_get bill_data ''number'') in
     and_then (value_get (dict_get_default bill_data ''policyArea'' (JObj [])) ''name'') (\<lambda>policy_area.
     and_then (value_get latest_action ''text'') (\<lambda>latest_action_text.
     and_then (value_get sponsor ''bioguideId'') (\<lambda>sponsor_id.
     and_then (value_get sponsor ''fullName'') (\<lambda>sponsor_name.
     and_then (value_get sponsor ''party'') (\<lambda>sponsor_party.
     and_then (value_get sponsor ''state'') (\<lambda>sponsor_state.
       Inr [ CStr bill_id,
             CJson (dict_get bill_data ''congress''),
             CJson (dict_get bill_data ''type''),
             CJson (dict_get bill_data ''number''),
             CJson (dict_get bill_data ''title''),
             CJson (dict_get bill_data ''originChamber''),
             CJson (dict_get bill_data ''originChamberCode''),
             update_date,
             update_date_text,
             introduced_date,
             CJson policy_area,
             CJson latest_action_text,
             latest_action_date,
             CJson sponsor_id,
             CJson sponsor_name,
             CJson sponsor_party,
             CJson sponsor_state,
             CJson (dict_get bill_data ''url'') ]))))))))))))"

text \<open>
  The loop over the bills: a mapped bill appends its row and records a success; an
  exception records a failure and an error message, and the loop goes on.
\<close>

definition bill_failed :: "('d, 't) pylib \<Rightarrow> item \<Rightarrow> py_exn \<Rightarrow> ProgressReporter \<Rightarrow> ProgressReporter" where
  "bill_failed lib bill e p =
     record_error (''Bill '' @ py_format lib (dict_get bill ''number'') @ '': '' @ exn_str lib e)
       (record_failure p)"

fun persist_bills ::
  "('d, 't) pylib \<Rightarrow> int \<Rightarrow> item list \<Rightarrow> ('d, 't) cell list list \<times> ProgressReporter
     \<Rightarrow> ('d, 't) cell list list \<times> ProgressReporter" where
  "persist_bills lib congress [] acc = acc"
| "persist_bills lib congress (bill # bills) (vals, p) =
     (case map_bill lib congress bill of
        Inr row \<Rightarrow> persist_bills lib congress bills (vals @ [row], record_success p)
      | Inl e \<Rightarrow> persist_bills lib congress bills (vals, bill_failed lib bill e p))"

definition bill_columns :: "string list" where
  "bill_columns =
     [ ''bill_id'', ''congress'', ''bill_type'', ''bill_number'', ''title'',
       ''origin_chamber'', ''origin_chamber_code'', ''update_date'',
       ''update_date_including_text'', ''introduced_date'', ''policy_area'',
       ''latest_action_text'', ''latest_action_date'', ''sponsor_bioguide_id'',
       ''sponsor_name'', ''sponsor_party'', ''sponsor_state'', ''url'' ]"

text \<open>
  \<open>ingest_bills\<close> from the list of bills that \<open>client.list_bills\<close> returned; \<open>now\<close>
  is the clock when the \<open>track\<close> block is left.
\<close>

definition ingest_bills ::
  "('d, 't) pylib \<Rightarrow> ('s, ('d, 't) cell) engine \<Rightarrow> int \<Rightarrow> item list \<Rightarrow> timestamp
     \<Rightarrow> ProgressReporter \<times> 's world \<Rightarrow> (py_exn + int) \<times> ProgressReporter \<times> 's world" where
  "ingest_bills lib eng congress bills now st =
     (let (progress, w) = st in
      if bills = [] then (Inr 0, progress, w)
      else let (vals, p1) = persist_bills lib congress bills
                              ([], track_enter (int (length bills)) progress);
               p2 = track_exit now p1;
               (r, w') = upsert eng ''congress_bills'' bill_columns vals [''bill_id''] None w
           in (r, p2, w'))"

section \<open>Pagination (lib/base.py)\<close>

text \<open>
  The two hooks a client supplies, with their declared types: \<open>_extract_items\<close> gives the
  list of items of a response, \<open>_get_next_page\<close> a dict describing the next page or
  \<open>None\<close>.
\<close>

record client =
  extract_items :: "item \<Rightarrow> json list"
  get_next_page :: "item \<Rightarrow> item option"

text \<open>
  \<open>{**base, **kwargs}\<close>: a key of \<open>kwargs\<close> replaces the value of the same key in
  \<open>base\<close>, a new key is added at the end.
\<close>

definition dict_merge :: "item \<Rightarrow> item \<Rightarrow> item" where
  "dict_merge base kwargs = fold (\<lambda>(k, v) d. AList.update k v d) kwargs base"

definition cursor_params :: "int \<Rightarrow> json \<Rightarrow> item \<Rightarrow> item" where
  "cursor_params page_size offset_mark kwargs =
     dict_merge [(''pageSize'', JInt page_size), (''offsetMark'', offset_mark)] kwargs"

definition offset_params :: "int \<Rightarrow> int \<Rightarrow> item \<Rightarrow> item" where
  "offset_params page_size offset kwargs =
     dict_merge [(''limit'', JInt page_size), (''offset'', JInt offset)] kwargs"

text \<open>
  \<open>self.get\<close> is a parameter: from the state \<open>'u\<close> of everything behind the client
  (transport and upstream) and a request, it raises or returns the decoded response, and
  gives the new state.
\<close>

type_synonym 'u getter = "'u \<Rightarrow> string \<Rightarrow> item \<Rightarrow> (py_exn + item) \<times> 'u"

text \<open>The \<open>try\<close>/\<open>except\<close> of one loop iteration.\<close>

definition fetch_page ::
  "'u getter \<Rightarrow> string \<Rightarrow> int \<Rightarrow> item \<Rightarrow> int \<Rightarrow> json \<Rightarrow> 'u \<Rightarrow> (py_exn + item) \<times> 'u" where
  "fetch_page get endpoint page_size kwargs offset offset_mark u =
     (case get u endpoint (cursor_params page_size offset_mark kwargs) of
        (Inr response, u1) \<Rightarrow> (Inr response, u1)
      | (Inl e, u1) \<Rightarrow> get u1 endpoint (offset_params page_size offset kwargs))"

text \<open>
  The loop of \<open>paginate\<close>, run to its end: the items yielded so far are accumulated, and
  the result is the list of yielded items, the exception that ended the generator if one
  did, and the final state. The loop need not end; then the result is \<open>None\<close>.
\<close>

partial_function (option) paginate_loop ::
  "client \<Rightarrow> 'u getter \<Rightarrow> string \<Rightarrow> int \<Rightarrow> int option \<Rightarrow> item
     \<Rightarrow> int \<Rightarrow> int \<Rightarrow> json \<Rightarrow> json list \<Rightarrow> 'u
     \<Rightarrow> (json list \<times> py_exn option \<times> 'u) option" where
  "paginate_loop c get endpoint page_size max_pages kwargs page offset offset_mark acc u =
     (if (case max_pages of None \<Rightarrow> False | Some m \<Rightarrow> m \<le> page) then Some (acc, None, u)
      else case fetch_page get endpoint page_size kwargs offset offset_mark u of
             (Inl e, u1) \<Rightarrow> Some (acc, Some e, u1)
           | (Inr response, u1) \<Rightarrow>
               let items = extract_items c response in
               if items = [] then Some (acc, None, u1)
               else (case get_next_page c response of
                       None \<Rightarrow> Some (acc @ items, None, u1)
                     | Some next_page \<Rightarrow>
                         if next_page = [] then Some (acc @ items, None, u1)
                         else paginate_loop c get endpoint page_size max_pages kwargs
                                (page + 1) (offset + page_size)
                                (dict_get_default next_page ''offsetMark'' offset_mark)
                                (acc @ items) u1))"

definition paginate ::
  "client \<Rightarrow> 'u getter \<Rightarrow> string \<Rightarrow> int \<Rightarrow> int option \<Rightarrow> item \<Rightarrow> 'u
     \<Rightarrow> (json list \<times> py_exn option \<times> 'u) option" where
  "paginate c get endpoint page_size max_pages kwargs u =
     paginate_loop c get endpoint page_size max_pages kwargs 0 0 (JStr ''*'') [] u"

text \<open>
  The two tests of the loop: \<open>max_pages is not None and page >= max_pages\<close>, and the
  negation of \<open>not next_page\<close>.
\<close>

definition has_next :: "client \<Rightarrow> item \<Rightarrow> bool" where
  "has_next c response =
     (case get_next_page c response of None \<Rightarrow> False | Some next_page \<Rightarrow> next_page \<noteq> [])"

definition max_reached :: "int option \<Rightarrow> int \<Rightarrow> bool" where
  "max_reached max_pages page = (case max_pages of None \<Rightarrow> False | Some m \<Rightarrow> m \<le> page)"


type_synonym request_log = "(string \<times> item \<times> bool) list"

definition recording :: "'u getter \<Rightarrow> (request_log \<times> 'u) getter" where
  "recording get lu endpoint params =
     (let (r, u1) = get (snd lu) endpoint params
      in (r, (fst lu @ [(endpoint, params, isl r)], u1)))"

section \<open>Requests with retry (lib/base.py)\<close>

text \<open>
  The client: its configuration and the two preparation methods of the subclass.
  \<open>rate_limit_calls\<close> and \<open>rate_limit_period\<close> are stored by \<open>__init__\<close>.
\<close>

record api_client =
  api_key :: string
  base_url :: string
  rate_limit_calls :: int
  rate_limit_period :: int
  max_retries :: int
  prepare_headers :: "(string \<times> string) list"
  prepare_params :: "item \<Rightarrow> item"

definition rstrip_slash :: "string \<Rightarrow> string" where
  "rstrip_slash s = rev (dropWhile (\<lambda>ch. ch = CHR ''/'') (rev s))"

definition lstrip_slash :: "string \<Rightarrow> string" where
  "lstrip_slash s = dropWhile (\<lambda>ch. ch = CHR ''/'') s"

definition init_client ::
  "string \<Rightarrow> string \<Rightarrow> int \<Rightarrow> int \<Rightarrow> int \<Rightarrow> (string \<times> string) list \<Rightarrow> (item \<Rightarrow> item)
     \<Rightarrow> api_client" where
  "init_client key url calls period retries hdrs prep =
     \<lparr> api_key = key, base_url = rstrip_slash url, rate_limit_calls = calls,
       rate_limit_period = period, max_retries = retries, prepare_headers = hdrs,
       prepare_params = prep \<rparr>"

text \<open>
  A request as handed to \<open>session.request\<close>, and what the code reads of a response: the
  status, the value of the \<open>Retry-After\<close> header when the response carries one, and the
  decoded body (\<open>None\<close> when the body is not JSON).
\<close>

record request =
  req_method :: string
  req_url :: string
  req_headers :: "(string \<times> string) list"
  req_params :: item
  req_json :: "json option"

record response =
  status_code :: nat
  retry_after :: "string option"
  json_body :: "item option"

text \<open>
  The network: a clock in seconds, the state of what is behind \<open>session.request\<close>, the
  requests made with the time of each, and the sleeps taken.
\<close>

record 'u net =
  clock :: int
  upstream :: 'u
  sent :: "(int \<times> request) list"
  sleeps :: "int list"

type_synonym 'u sender = "'u \<Rightarrow> request \<Rightarrow> (py_exn + response) \<times> 'u"

definition session_request :: "'u sender \<Rightarrow> request \<Rightarrow> 'u net \<Rightarrow> (py_exn + response) \<times> 'u net" where
  "session_request send rq w =
     (let (r, u1) = send (upstream w) rq
      in (r, w\<lparr> upstream := u1, sent := sent w @ [(clock w, rq)] \<rparr>))"

definition time_sleep :: "int \<Rightarrow> 'u net \<Rightarrow> 'u net" where
  "time_sleep n w = w\<lparr> clock := clock w + n, sleeps := sleeps w @ [n] \<rparr>"

definition build_request ::
  "api_client \<Rightarrow> string \<Rightarrow> string \<Rightarrow> item option \<Rightarrow> json option \<Rightarrow> item \<Rightarrow> request" where
  "build_request cl endpoint method params data kwargs =
     \<lparr> req_method = method,
       req_url = base_url cl @ ''/'' @ lstrip_slash endpoint,
       req_headers = prepare_headers cl,
       req_params = dict_merge (case params of None \<Rightarrow> [] | Some d \<Rightarrow> d)
                      (prepare_params cl kwargs),
       req_json = data \<rparr>"

text \<open>
  The \<open>@retry\<close> decorator (tenacity): at most 3 attempts, and between two attempts a
  wait of \<open>max(4, min(2 ** (attempt - 1), 10))\<close> seconds; when the last attempt raises,
  \<open>RetryError\<close> is raised. The \<open>@sleep_and_retry\<close> decorator (ratelimit) re-runs the
  call after a \<open>RateLimitException\<close>, which only \<open>@limits\<close> raises; \<open>limits\<close> is
  imported and never applied, so that decorator passes every call through and adds no
  branch.
\<close>

definition retry_wait :: "nat \<Rightarrow> int" where
  "retry_wait attempt = max 4 (min (2 ^ (attempt - 1)) 10)"

definition raise_for_status :: "response \<Rightarrow> py_exn option" where
  "raise_for_status r =
     (if 400 \<le> status_code r \<and> status_code r < 600 then Some (HTTPError (status_code r)) else None)"

text \<open>
  \<open>_make_request\<close> at attempt number \<open>attempt\<close> of the retry decorator: the first
  argument of \<open>bind\<close> is the method body, the second the decorator's handling of its
  outcome. \<open>py_int\<close> is Python's \<open>int\<close> on a string; \<open>time.sleep\<close> raises
  \<open>ValueError\<close> on a negative length. The call after a 503 with \<open>Retry-After\<close> goes
  through the decorated method again, so it starts at attempt 1, with the parameters
  already merged. A call that never returns has the value \<open>None\<close>.
\<close>

partial_function (option) make_request_from ::
  "api_client \<Rightarrow> 'u sender \<Rightarrow> (string \<Rightarrow> py_exn + int) \<Rightarrow> string \<Rightarrow> string \<Rightarrow> item option
     \<Rightarrow> json option \<Rightarrow> item \<Rightarrow> nat \<Rightarrow> 'u net \<Rightarrow> ((py_exn + response) \<times> 'u net) option" where
  "make_request_from cl send py_int endpoint method params data kwargs attempt w =
     Option.bind
       (case session_request send (build_request cl endpoint method params data kwargs) w of
          (Inl e, w1) \<Rightarrow> Some (Inl e, w1)
        | (Inr r, w1) \<Rightarrow>
            if status_code r = 503 \<and> retry_after r \<noteq> None
            then (case py_int (the (retry_after r)) of
                    Inl e \<Rightarrow> Some (Inl e, w1)
                  | Inr n \<Rightarrow>
                      if n < 0 then Some (Inl ValueError, w1)
                      else make_request_from cl send py_int endpoint method
                             (Some (req_params (build_request cl endpoint method params data kwargs)))
                             data kwargs 1 (time_sleep n w1))
            else (case raise_for_status r of
                    Some e \<Rightarrow> Some (Inl e, w1)
                  | None \<Rightarrow> Some (Inr r, w1)))
       (\<lambda>(res, w'). case res of
            Inr r \<Rightarrow> Some (Inr r, w')
          | Inl e \<Rightarrow>
              if attempt < 3
              then make_request_from cl send py_int endpoint method params data kwargs
                     (Suc attempt) (time_sleep (retry_wait attempt) w')
              else Some (Inl (RetryError e), w'))"

definition make_request ::
  "api_client \<Rightarrow> 'u sender \<Rightarrow> (string \<Rightarrow> py_exn + int) \<Rightarrow> string \<Rightarrow> string \<Rightarrow> item option
     \<Rightarrow> json option \<Rightarrow> item \<Rightarrow> 'u net \<Rightarrow> ((py_exn + response) \<times> 'u net) option" where
  "make_request cl send py_int endpoint method params data kwargs w =
     make_request_from cl send py_int endpoint method params data kwargs 1 w"

text \<open>\<open>get\<close>: a GET request, then \<open>response.json()\<close>; \<open>kwargs\<close> are query parameters.\<close>

definition client_get ::
  "api_client \<Rightarrow> 'u sender \<Rightarrow> (string \<Rightarrow> py_exn + int) \<Rightarrow> string \<Rightarrow> item \<Rightarrow> 'u net
     \<Rightarrow> ((py_exn + item) \<times> 'u net) option" where
  "client_get cl send py_int endpoint kwargs w =
     Option.bind (make_request cl send py_int endpoint ''GET'' None None kwargs w)
       (\<lambda>(res, w1). case res of
            Inl e \<Rightarrow> Some (Inl e, w1)
          | Inr r \<Rightarrow> (case json_body r of
                        None \<Rightarrow> Some (Inl JSONDecodeError, w1)
                      | Some body \<Rightarrow> Some (Inr body, w1)))"

section \<open>A property of units of work\<close>

text \<open>
  The discipline claimed for a unit of work \<open>body\<close> started in world \<open>w\<close> with
  outcome \<open>out\<close>: if the body raises \<open>e\<close>, the outcome is the same \<open>e\<close>, the
  committed contents are as before and the driver calls end with rollback, close, putconn;
  if the body returns \<open>v\<close>, then either the commit succeeds, the outcome is \<open>v\<close> and
  the transaction's contents are the committed ones, or the commit raises and is handled
  like an exception of the body. In each case the world's \<open>busy\<close> count is that of
  \<open>w\<close>.
\<close>

definition transaction_discipline ::
  "('s, 'v) engine \<Rightarrow> bool \<Rightarrow> (('s, 'v) cursor \<Rightarrow> (py_exn + 'a) \<times> ('s, 'v) cursor)
     \<Rightarrow> 's world \<Rightarrow> (py_exn + 'a) \<times> 's world \<Rightarrow> bool" where
  "transaction_discipline eng d body w out =
     (let (r, c) = body (new_cursor (committed w));
          calls = [EvGetConn, EvCursor d] @ map EvExecute (issued c)
      in case r of
           Inl e \<Rightarrow>
             out = (Inl e, w\<lparr> trace := trace w @ calls @ [EvRollback, EvClose, EvPutConn] \<rparr>)
         | Inr v \<Rightarrow>
             (case commit_error eng (cur_db c) of
                None \<Rightarrow>
                  out = (Inr v, w\<lparr> committed := cur_db c,
                                  trace := trace w @ calls @ [EvCommit, EvClose, EvPutConn] \<rparr>)
              | Some e \<Rightarrow>
                  out = (Inl e, w\<lparr> trace := trace w @ calls @ [EvRollback, EvClose, EvPutConn] \<rparr>)))"

section \<open>Concrete data for the examples\<close>

text \<open>A stand-in database for concrete runs: its contents are a counter.\<close>

definition counter_engine :: "(nat, nat) engine" where
  "counter_engine = \<lparr>
     exec = (\<lambda>st n. case st of
        Query q ps \<Rightarrow> if q = ''boom'' then Inl (DatabaseError ''boom'') else Inr (Suc n, None, 1)
      | InsertValues t cs oc page \<Rightarrow> Inr (n + length page, None, int (length page))
      | UpsertValues t cs cc ucs page \<Rightarrow> Inr (n + length page, None, int (length page))),
     commit_error = (\<lambda>n. None) \<rparr>"

text \<open>A database with one empty table \<open>t\<close> keyed on \<open>k\<close>.\<close>

definition empty_t :: "nat database" where
  "empty_t = (\<lambda>name. if name = ''t'' then Some \<lparr> pkey = [''k''], trows = [] \<rparr> else None)"

text \<open>
  Library stand-ins whose date parsers always raise, bills that carry no date, and the row
  such a bill maps to under congress 118.
\<close>

definition plain_lib :: "(unit, unit) pylib" where
  "plain_lib = \<lparr> strptime_ymd = (\<lambda>s. Inl ValueError), fromisoformat = (\<lambda>s. Inl ValueError),
     py_format = (\<lambda>v. case v of JStr s \<Rightarrow> s | JInt i \<Rightarrow> str_int i | _ \<Rightarrow> ''None''),
     exn_str = (\<lambda>e. ''error'') \<rparr>"

definition good_bill :: "int \<Rightarrow> item" where
  "good_bill n = [(''type'', JStr ''hr''), (''number'', JInt n)]"

definition bad_bill :: "int \<Rightarrow> item" where
  "bad_bill n = [(''type'', JStr ''hr''), (''number'', JInt n), (''latestAction'', JNull)]"

definition good_row :: "int \<Rightarrow> (unit, unit) cell list" where
  "good_row n =
     [ CStr (''118-hr-'' @ str_int n), CJson JNull, CJson (JStr ''hr''), CJson (JInt n), CJson JNull,
       CJson JNull, CJson JNull, CJson JNull, CJson JNull, CJson JNull, CJson JNull,
       CJson JNull, CJson JNull, CJson JNull, CJson JNull, CJson JNull, CJson JNull,
       CJson JNull ]"

text \<open>
  A client whose responses are \<open>{"results": [...], "next": token}\<close>, for concrete runs,
  and an upstream that rejects every request carrying \<open>offsetMark\<close>.
\<close>

definition results_client :: client where
  "results_client = \<lparr>
     extract_items = (\<lambda>r. case dict_get r ''results'' of JList xs \<Rightarrow> xs | _ \<Rightarrow> []),
     get_next_page = (\<lambda>r. if truthy (dict_get r ''next'')
                            then Some [(''offsetMark'', dict_get r ''next'')] else None) \<rparr>"

definition rejects_offset_mark :: "nat getter" where
  "rejects_offset_mark n endpoint params =
     (if map_of params ''offsetMark'' \<noteq> None then (Inl (HTTPError 400), Suc n)
      else (Inr [(''results'', JList [JInt 7])], Suc n))"

text \<open>
  For concrete runs: a client with a limit of one call per hour, an upstream that answers
  the n-th request with the n-th entry of a script, and an \<open>int\<close> that reads the
  string \<open>2\<close>.
\<close>

definition demo_client :: api_client where
  "demo_client = init_client ''key'' ''https://api.example/'' 1 3600 3 []
     (\<lambda>kwargs. dict_merge [(''api_key'', JStr ''key'')] kwargs)"

definition scripted :: "(py_exn + response) list \<Rightarrow> nat sender" where
  "scripted script n rq =
     (if n < length script then (script ! n, Suc n) else (Inl ConnectionError, Suc n))"

definition int_two :: "string \<Rightarrow> py_exn + int" where
  "int_two s = (if s = ''2'' then Inr 2 else Inl ValueError)"


definition answer :: response where
  "answer = \<lparr> status_code = 200, retry_after = None, json_body = Some [(''bills'', JList [])] \<rparr>"

definition demo_request :: request where
  "demo_request = \<lparr> req_method = ''GET'', req_url = ''https://api.example/bill'',
     req_headers = [], req_params = [(''api_key'', JStr ''key'')], req_json = None \<rparr>"

section \<open>Splitting a list into pages\<close>

lemma concat_chunks: "0 < n \<Longrightarrow> concat (chunks n xs) = xs"
proof (induction n xs rule: chunks.induct)
  case (1 n xs)
  show ?case
  proof (cases "xs = []")
    case True
    then show ?thesis by (simp add: chunks.simps [of n "[]"])
  next
    case False
    with 1 show ?thesis by (simp add: chunks.simps [of n xs])
  qed
qed

lemma chunks_empty_iff: "0 < n \<Longrightarrow> chunks n xs = [] \<longleftrightarrow> xs = []"
  by (simp add: chunks.simps [of n xs])

section \<open>The error list of a run\<close>

lemma record_error_errors: "errors (stats (record_error e r)) = errors (stats r) @ [e]"
  by (simp add: record_error_def Let_def)

lemma record_error_logged:
  "logged (record_error e r) =
     (if length (errors (stats r)) < 10 then logged r @ [e] else logged r)"
  by (simp add: record_error_def Let_def)

lemma record_error_counters:
  "failed_items (stats (record_error e r)) = failed_items (stats r)"
  "processed_items (stats (record_error e r)) = processed_items (stats r)"
  "successful_items (stats (record_error e r)) = successful_items (stats r)"
  by (simp_all add: record_error_def Let_def)

lemma fold_record_error_errors:
  "errors (stats (fold record_error es r)) = errors (stats r) @ es"
  by (induction es arbitrary: r) (simp_all add: record_error_errors)

lemma fold_record_error_logged:
  "logged (fold record_error es r) = logged r @ take (10 - length (errors (stats r))) es"
proof (induction es arbitrary: r)
  case Nil
  show ?case by simp
next
  case (Cons e es)
  show ?case
  proof (cases "length (errors (stats r)) < 10")
    case True
    then obtain k where k: "10 - length (errors (stats r)) = Suc k"
      by (cases "10 - length (errors (stats r))") auto
    then have "10 - length (errors (stats (record_error e r))) = k"
      by (simp add: record_error_errors)
    with Cons.IH [of "record_error e r"] k True show ?thesis
      by (simp add: record_error_logged)
  next
    case False
    with Cons.IH [of "record_error e r"] show ?thesis
      by (simp add: record_error_logged record_error_errors)
  qed
qed

text \<open>
  C8, as the claim states it, fails: eleven \<open>record_error\<close> calls on a fresh reporter
  leave eleven strings in \<open>stats.errors\<close>, not ten.
\<close>

theorem record_error_keeps_eleventh:
  "errors (stats (fold record_error
      [''e1'', ''e2'', ''e3'', ''e4'', ''e5'', ''e6'', ''e7'', ''e8'', ''e9'', ''e10'', ''e11'']
      (new_reporter True 0)))
   = [''e1'', ''e2'', ''e3'', ''e4'', ''e5'', ''e6'', ''e7'', ''e8'', ''e9'', ''e10'', ''e11'']"
  by (simp add: record_error_errors new_reporter_def new_stats_def)

text \<open>
  C8 (amended): every \<open>record_error\<close> call appends its message to \<open>stats.errors\<close>, so
  the list keeps all messages in order and \<open>error_count\<close> counts all of them; the bound
  of 10 applies to logging only: of the messages recorded, those that land among the first
  ten entries of the list are sent to \<open>logger.error\<close>, later ones are stored but not logged.
\<close>

theorem record_error_appends_all:
  "errors (stats (fold record_error es r)) = errors (stats r) @ es
   \<and> d_error_count (get_stats now (fold record_error es r)) = length (errors (stats r)) + length es
   \<and> logged (fold record_error es r) = logged r @ take (10 - length (errors (stats r))) es"
  by (simp add: fold_record_error_errors fold_record_error_logged get_stats_def to_dict_def)


section \<open>The summary and the stats accessor\<close>










section \<open>Empty batches\<close>

text \<open>
  C10: \<open>bulk_insert\<close> and \<open>upsert\<close> called with an empty list of rows return 0 and
  leave the world as it was: no connection is taken from the pool, no driver call is
  made (the trace is unchanged) and the committed contents are unchanged.
\<close>

theorem empty_rows_no_database_work:
  "bulk_insert eng table columns [] on_conflict w = (Inr 0, w)
   \<and> upsert eng table columns [] conflict_columns update_columns w = (Inr 0, w)"
  by (simp add: bulk_insert_def upsert_def)

section \<open>Transaction discipline of a unit of work\<close>

lemma get_cursor_raise:
  assumes "busy w < maxconn" and "body (new_cursor (committed w)) = (Inl e, c)"
  shows "get_cursor eng d body w =
     (Inl e, w\<lparr> trace := trace w @ [EvGetConn, EvCursor d] @ map EvExecute (issued c)
                              @ [EvRollback, EvClose, EvPutConn] \<rparr>)"
  using assms by (simp add: get_cursor_def get_connection_def log_ev_def)

lemma get_cursor_commit:
  assumes "busy w < maxconn" and "body (new_cursor (committed w)) = (Inr v, c)"
    and "commit_error eng (cur_db c) = None"
  shows "get_cursor eng d body w =
     (Inr v, w\<lparr> committed := cur_db c,
                  trace := trace w @ [EvGetConn, EvCursor d] @ map EvExecute (issued c)
                              @ [EvCommit, EvClose, EvPutConn] \<rparr>)"
  using assms by (simp add: get_cursor_def get_connection_def log_ev_def)

lemma get_cursor_commit_raise:
  assumes "busy w < maxconn" and "body (new_cursor (committed w)) = (Inr v, c)"
    and "commit_error eng (cur_db c) = Some e"
  shows "get_cursor eng d body w =
     (Inl e, w\<lparr> trace := trace w @ [EvGetConn, EvCursor d] @ map EvExecute (issued c)
                              @ [EvRollback, EvClose, EvPutConn] \<rparr>)"
  using assms by (simp add: get_cursor_def get_connection_def log_ev_def)

lemma get_cursor_discipline:
  assumes "busy w < maxconn"
  shows "transaction_discipline eng d body w (get_cursor eng d body w)"
proof (cases "body (new_cursor (committed w))")
  case (Pair r c)
  show ?thesis
  proof (cases r)
    case (Inl e)
    with Pair assms show ?thesis
      by (simp add: transaction_discipline_def get_cursor_raise)
  next
    case (Inr v)
    with Pair assms show ?thesis
      by (cases "commit_error eng (cur_db c)")
        (simp_all add: transaction_discipline_def get_cursor_commit get_cursor_commit_raise)
  qed
qed

lemma discipline_busy:
  "transaction_discipline eng d body w out \<Longrightarrow> busy (snd out) = busy w"
  by (auto simp add: transaction_discipline_def Let_def split: prod.splits sum.splits option.splits)

text \<open>
  C6: with a connection available in the pool, every sink call that does database work
  (\<open>execute_query\<close>; \<open>bulk_insert\<close> and \<open>upsert\<close> on a non-empty list of rows) is one
  transaction of its own: committed when the statements and the commit succeed, rolled back
  with the original exception re-raised when one of them raises, and with the connection
  returned to the pool either way.
\<close>

theorem sink_calls_are_transactions:
  assumes "busy w < maxconn" and "rows \<noteq> []"
  shows
  "transaction_discipline eng True (execute_query_body eng query params fetch) w
      (execute_query eng query params fetch w)
   \<and> transaction_discipline eng False
        (values_body eng (InsertValues table columns on_conflict) rows) w
        (bulk_insert eng table columns rows on_conflict w)
   \<and> transaction_discipline eng False
        (values_body eng (UpsertValues table columns conflict_columns
           (case update_columns of
              None \<Rightarrow> filter (\<lambda>col. col \<notin> set conflict_columns) columns
            | Some u \<Rightarrow> u)) rows) w
        (upsert eng table columns rows conflict_columns update_columns w)
   \<and> busy (snd (execute_query eng query params fetch w)) = busy w
   \<and> busy (snd (bulk_insert eng table columns rows on_conflict w)) = busy w
   \<and> busy (snd (upsert eng table columns rows conflict_columns update_columns w)) = busy w"
proof -
  have q: "transaction_discipline eng True (execute_query_body eng query params fetch) w
      (execute_query eng query params fetch w)"
    unfolding execute_query_def using assms(1) by (rule get_cursor_discipline)
  have i: "transaction_discipline eng False
        (values_body eng (InsertValues table columns on_conflict) rows) w
        (bulk_insert eng table columns rows on_conflict w)"
    using assms get_cursor_discipline [of w eng False] by (simp add: bulk_insert_def)
  have u: "transaction_discipline eng False
        (values_body eng (UpsertValues table columns conflict_columns
           (case update_columns of
              None \<Rightarrow> filter (\<lambda>col. col \<notin> set conflict_columns) columns
            | Some u \<Rightarrow> u)) rows) w
        (upsert eng table columns rows conflict_columns update_columns w)"
    using assms get_cursor_discipline [of w eng False] by (simp add: upsert_def)
  from q i u discipline_busy [OF q] discipline_busy [OF i] discipline_busy [OF u]
  show ?thesis by simp
qed

text \<open>
  Two concrete calls on the counter database: a query that raises is rolled back and its
  exception re-raised; an upsert of two rows is committed. Both leave no connection
  checked out.
\<close>

theorem sink_calls_are_transactions_witness:
  "execute_query counter_engine ''boom'' None False \<lparr> committed = 7, busy = 0, trace = [] \<rparr>
     = (Inl (DatabaseError ''boom''),
        \<lparr> committed = 7, busy = 0,
          trace = [EvGetConn, EvCursor True, EvExecute ''boom'', EvRollback, EvClose, EvPutConn] \<rparr>)
   \<and> upsert counter_engine ''t'' [''k'', ''a''] [[5, 2], [3, 4]] [''k''] None
        \<lparr> committed = 7, busy = 0, trace = [] \<rparr>
     = (Inr 2,
        \<lparr> committed = 9, busy = 0,
          trace = [EvGetConn, EvCursor False,
                   EvExecute (sql_text (UpsertValues ''t'' [''k'', ''a''] [''k''] [''a''] [])),
                   EvCommit, EvClose, EvPutConn] \<rparr>)"
proof -
  let ?w = "\<lparr> committed = 7::nat, busy = 0, trace = [] \<rparr>"
  let ?rows = "[[5, 2], [3, 4 :: nat]]"
  have pool: "busy ?w < maxconn"
    by (simp add: maxconn_def)
  have rows: "?rows \<noteq> []"
    by simp
  have ch: "chunks 100 ?rows = [?rows]"
    by (simp add: chunks.simps)
  note t = sink_calls_are_transactions [OF pool rows, where eng = counter_engine
      and query = "''boom''" and params = None and fetch = False
      and table = "''t''" and columns = "[''k'', ''a'']" and conflict_columns = "[''k'']"
      and update_columns = None]
  from t have "transaction_discipline counter_engine True
      (execute_query_body counter_engine ''boom'' None False) ?w
      (execute_query counter_engine ''boom'' None False ?w)"
    by simp
  then have a: "execute_query counter_engine ''boom'' None False ?w
     = (Inl (DatabaseError ''boom''),
        \<lparr> committed = 7, busy = 0,
          trace = [EvGetConn, EvCursor True, EvExecute ''boom'', EvRollback, EvClose, EvPutConn] \<rparr>)"
    by (simp add: transaction_discipline_def execute_query_body_def cursor_execute_def
        counter_engine_def new_cursor_def)
  from t have "transaction_discipline counter_engine False
      (values_body counter_engine (UpsertValues ''t'' [''k'', ''a''] [''k''] [''a'']) ?rows) ?w
      (upsert counter_engine ''t'' [''k'', ''a''] ?rows [''k''] None ?w)"
    by simp
  moreover have "values_body counter_engine (UpsertValues ''t'' [''k'', ''a''] [''k''] [''a''])
      ?rows (new_cursor (committed ?w))
    = (Inr 2, \<lparr> cur_db = 9, rowcount = 2, result_set = None,
         issued = [sql_text (UpsertValues ''t'' [''k'', ''a''] [''k''] [''a''] [])] \<rparr>)"
    by (simp add: values_body_def execute_values_def ch cursor_execute_def counter_engine_def
        new_cursor_def)
  ultimately have b: "upsert counter_engine ''t'' [''k'', ''a''] ?rows [''k''] None ?w
     = (Inr 2,
        \<lparr> committed = 9, busy = 0,
          trace = [EvGetConn, EvCursor False,
                   EvExecute (sql_text (UpsertValues ''t'' [''k'', ''a''] [''k''] [''a''] [])),
                   EvCommit, EvClose, EvPutConn] \<rparr>)"
    by (simp add: transaction_discipline_def counter_engine_def)
  from a b show ?thesis by simp
qed

section \<open>Upserting twice\<close>

lemma set_excluded_key:
  "row_key cc r = row_key cc x \<Longrightarrow> row_key cc (set_excluded ucs x r) = row_key cc r"
  by (auto simp add: row_key_def set_excluded_def)

lemma set_excluded_twice: "set_excluded ucs x (set_excluded ucs y r) = set_excluded ucs x r"
  by (auto simp add: set_excluded_def)

lemma set_excluded_self: "set_excluded ucs x x = x"
  by (auto simp add: set_excluded_def)

lemma absorb_one_self: "absorb_one cc ucs x x = x"
  by (simp add: absorb_one_def set_excluded_self)

lemma absorb_one_key: "row_key cc (absorb_one cc ucs x r) = row_key cc r"
  by (simp add: absorb_one_def set_excluded_key)

lemma upsert_row_alt:
  "upsert_row cc ucs x T =
     (if row_key cc x \<in> row_key cc ` set T then map (absorb_one cc ucs x) T else T @ [x])"
  by (simp add: upsert_row_def absorb_one_def)

lemma upsert_row_keys:
  "row_key cc ` set (upsert_row cc ucs x T) = insert (row_key cc x) (row_key cc ` set T)"
  by (auto simp add: upsert_row_alt absorb_one_key image_image)

lemma fold_upsert_keys:
  "row_key cc ` set (fold (upsert_row cc ucs) xs T) = row_key cc ` set xs \<union> row_key cc ` set T"
  by (induction xs arbitrary: T) (auto simp add: upsert_row_keys)

lemma fold_absorb_key: "row_key cc (fold (absorb_one cc ucs) xs r) = row_key cc r"
  by (induction xs arbitrary: r) (simp_all add: absorb_one_key)

lemma fold_upsert_present:
  "row_key cc ` set xs \<subseteq> row_key cc ` set T \<Longrightarrow>
     fold (upsert_row cc ucs) xs T = map (fold (absorb_one cc ucs) xs) T"
proof (induction xs arbitrary: T)
  case Nil
  show ?case by simp
next
  case (Cons x xs)
  from Cons.prems have x: "row_key cc x \<in> row_key cc ` set T" by simp
  then have s: "upsert_row cc ucs x T = map (absorb_one cc ucs x) T"
    by (simp add: upsert_row_alt)
  have "row_key cc ` set (map (absorb_one cc ucs x) T) = row_key cc ` set T"
    by (simp add: image_image absorb_one_key)
  with Cons.prems have "row_key cc ` set xs \<subseteq> row_key cc ` set (map (absorb_one cc ucs x) T)"
    by simp
  from Cons.IH [OF this] s show ?case by simp
qed

lemma fold_absorb_no_match:
  "row_key cc r \<notin> row_key cc ` set xs \<Longrightarrow> fold (absorb_one cc ucs) xs r = r"
  by (induction xs arbitrary: r) (auto simp add: absorb_one_def)

lemma fold_absorb_outside:
  "col \<notin> set ucs \<Longrightarrow> fold (absorb_one cc ucs) xs r col = r col"
  by (induction xs arbitrary: r) (auto simp add: absorb_one_def set_excluded_def)

lemma set_excluded_absorb:
  "set_excluded ucs x (fold (absorb_one cc ucs) xs r) = set_excluded ucs x r"
  by (rule ext) (simp add: set_excluded_def fold_absorb_outside)

lemma absorb_one_after_fold:
  assumes "row_key cc r = row_key cc x"
  shows "absorb_one cc ucs x (fold (absorb_one cc ucs) xs (absorb_one cc ucs x r))
           = absorb_one cc ucs x r"
proof -
  from assms have k: "row_key cc (set_excluded ucs x r) = row_key cc x"
    by (simp add: set_excluded_key)
  from assms show ?thesis
    by (simp add: absorb_one_def fold_absorb_key k set_excluded_absorb set_excluded_twice)
qed

lemma fold_upsert_settled:
  "r \<in> set (fold (upsert_row cc ucs) xs T) \<Longrightarrow> fold (absorb_one cc ucs) xs r = r"
proof (induction xs arbitrary: r rule: rev_induct)
  case Nil
  show ?case by simp
next
  case (snoc x xs)
  let ?T = "fold (upsert_row cc ucs) xs T"
  from snoc.prems have r: "r \<in> set (upsert_row cc ucs x ?T)" by simp
  show ?case
  proof (cases "row_key cc x \<in> row_key cc ` set ?T")
    case True
    with r obtain r' where r': "r' \<in> set ?T" and eq: "r = absorb_one cc ucs x r'"
      by (auto simp add: upsert_row_alt)
    from snoc.IH [OF r'] have ih: "fold (absorb_one cc ucs) xs r' = r'" .
    show ?thesis
    proof (cases "row_key cc r' = row_key cc x")
      case True
      then show ?thesis
        by (simp add: eq absorb_one_after_fold)
    next
      case False
      then have "absorb_one cc ucs x r' = r'" by (simp add: absorb_one_def)
      with ih eq show ?thesis by simp
    qed
  next
    case False
    with r have "r \<in> set ?T \<or> r = x" by (auto simp add: upsert_row_alt)
    then show ?thesis
    proof
      assume in_T: "r \<in> set ?T"
      with False have "row_key cc r \<noteq> row_key cc x" by (metis imageI)
      then have "absorb_one cc ucs x r = r" by (simp add: absorb_one_def)
      with snoc.IH [OF in_T] show ?thesis by simp
    next
      assume rx: "r = x"
      from False have "row_key cc x \<notin> row_key cc ` set xs"
        by (simp add: fold_upsert_keys)
      then have "fold (absorb_one cc ucs) xs x = x" by (rule fold_absorb_no_match)
      with rx show ?thesis by (simp add: absorb_one_self)
    qed
  qed
qed

lemma fold_upsert_idem:
  "fold (upsert_row cc ucs) xs (fold (upsert_row cc ucs) xs T) = fold (upsert_row cc ucs) xs T"
proof -
  let ?T = "fold (upsert_row cc ucs) xs T"
  have "row_key cc ` set xs \<subseteq> row_key cc ` set ?T"
    by (simp add: fold_upsert_keys)
  then have "fold (upsert_row cc ucs) xs ?T = map (fold (absorb_one cc ucs) xs) ?T"
    by (rule fold_upsert_present)
  also have "\<dots> = ?T"
    by (rule map_idI) (rule fold_upsert_settled)
  finally show ?thesis .
qed


lemma after_upsert_append:
  "after_upsert table columns cc ucs (p @ q) db
     = after_upsert table columns cc ucs q (after_upsert table columns cc ucs p db)"
  by (simp add: after_upsert_def split: option.splits)

lemma after_upsert_idem:
  "after_upsert table columns cc ucs rows (after_upsert table columns cc ucs rows db)
     = after_upsert table columns cc ucs rows db"
  by (simp add: after_upsert_def fold_upsert_idem split: option.splits)

lemma after_upsert_target:
  "target_ok (after_upsert table columns cc ucs rows db) table cc = target_ok db table cc"
  by (simp add: after_upsert_def target_ok_def split: option.splits)

lemma on_conflict_do_update_ok:
  "target_ok db table cc \<Longrightarrow> stmt_ok columns cc ucs page \<Longrightarrow>
     on_conflict_do_update table columns cc ucs page db
       = Inr (after_upsert table columns cc ucs page db, None, int (length page))"
  by (auto simp add: on_conflict_do_update_def after_upsert_def target_ok_def split: option.splits)

lemma on_conflict_do_update_Inr:
  "on_conflict_do_update table columns cc ucs page db = Inr res \<Longrightarrow>
     target_ok db table cc \<and> stmt_ok columns cc ucs page"
  by (auto simp add: on_conflict_do_update_def target_ok_def split: option.splits if_splits)

lemma cursor_execute_upsert:
  "cursor_execute (pg_engine other ce) (UpsertValues table columns cc ucs page) c =
     (let c1 = c\<lparr> issued := issued c @ [sql_text (UpsertValues table columns cc ucs page)] \<rparr> in
      case on_conflict_do_update table columns cc ucs page (cur_db c) of
        Inl e \<Rightarrow> (Inl e, c1)
      | Inr (s', rs, n) \<Rightarrow> (Inr (), c1\<lparr> cur_db := s', rowcount := n, result_set := rs \<rparr>))"
  by (simp add: cursor_execute_def pg_engine_def)

lemma execute_pages_upsert_Inr:
  "execute_pages (pg_engine other ce) (UpsertValues table columns cc ucs) pages c = (Inr u, c') \<Longrightarrow>
     pages \<noteq> [] \<Longrightarrow>
     target_ok (cur_db c) table cc \<and> list_all (stmt_ok columns cc ucs) pages"
proof (induction pages arbitrary: c)
  case Nil
  then show ?case by simp
next
  case (Cons p ps)
  from Cons.prems(1) obtain res where
    res: "on_conflict_do_update table columns cc ucs p (cur_db c) = Inr res"
    by (auto simp add: cursor_execute_upsert Let_def split: sum.splits)
  then have ok: "target_ok (cur_db c) table cc" "stmt_ok columns cc ucs p"
    using on_conflict_do_update_Inr by blast+
  show ?case
  proof (cases "ps = []")
    case True
    with ok show ?thesis by simp
  next
    case False
    let ?c1 = "c\<lparr> issued := issued c @ [sql_text (UpsertValues table columns cc ucs p)],
                   cur_db := after_upsert table columns cc ucs p (cur_db c),
                   rowcount := int (length p), result_set := None \<rparr>"
    from Cons.prems(1) ok have
      "execute_pages (pg_engine other ce) (UpsertValues table columns cc ucs) ps ?c1 = (Inr u, c')"
      by (simp add: cursor_execute_upsert on_conflict_do_update_ok)
    from Cons.IH [OF this False] ok show ?thesis by simp
  qed
qed

lemma execute_pages_upsert_ok:
  "target_ok (cur_db c) table cc \<Longrightarrow> list_all (stmt_ok columns cc ucs) pages \<Longrightarrow> pages \<noteq> [] \<Longrightarrow>
   \<exists>c'. execute_pages (pg_engine other ce) (UpsertValues table columns cc ucs) pages c = (Inr (), c')
        \<and> cur_db c' = after_upsert table columns cc ucs (concat pages) (cur_db c)
        \<and> rowcount c' = int (length (last pages))"
proof (induction pages arbitrary: c)
  case Nil
  then show ?case by simp
next
  case (Cons p ps)
  let ?c1 = "c\<lparr> issued := issued c @ [sql_text (UpsertValues table columns cc ucs p)],
                 cur_db := after_upsert table columns cc ucs p (cur_db c),
                 rowcount := int (length p), result_set := None \<rparr>"
  from Cons.prems have step:
    "execute_pages (pg_engine other ce) (UpsertValues table columns cc ucs) (p # ps) c
       = execute_pages (pg_engine other ce) (UpsertValues table columns cc ucs) ps ?c1"
    by (simp add: cursor_execute_upsert on_conflict_do_update_ok)
  show ?case
  proof (cases "ps = []")
    case True
    with step show ?thesis by simp
  next
    case False
    have "target_ok (cur_db ?c1) table cc"
      using Cons.prems(1) by (simp add: after_upsert_target)
    moreover from Cons.prems(2) have "list_all (stmt_ok columns cc ucs) ps" by simp
    ultimately obtain c' where
      "execute_pages (pg_engine other ce) (UpsertValues table columns cc ucs) ps ?c1 = (Inr (), c')"
      "cur_db c' = after_upsert table columns cc ucs (concat ps) (cur_db ?c1)"
      "rowcount c' = int (length (last ps))"
      using Cons.IH [of ?c1] False by blast
    with step False show ?thesis
      by (simp add: after_upsert_append)
  qed
qed


lemma values_body_upsert_twice:
  assumes run: "values_body (pg_engine other ce) (UpsertValues table columns cc ucs) rows
                  (new_cursor db) = (Inr v, c)"
    and rows: "rows \<noteq> []"
  shows "\<exists>c2. values_body (pg_engine other ce) (UpsertValues table columns cc ucs) rows
                  (new_cursor (cur_db c)) = (Inr v, c2) \<and> cur_db c2 = cur_db c"
proof -
  let ?E = "pg_engine other ce"
  let ?mk = "UpsertValues table columns cc ucs"
  let ?pages = "chunks 100 rows"
  let ?c0 = "new_cursor db :: ('a database, 'a option) cursor"
  from rows have ne: "?pages \<noteq> []" by (simp add: chunks_empty_iff)
  from run have ep: "execute_pages ?E ?mk ?pages ?c0 = (Inr (), c)" and v: "v = rowcount c"
    by (auto simp add: values_body_def execute_values_def split: prod.splits sum.splits)
  from execute_pages_upsert_Inr [OF ep ne]
  have ok: "target_ok (cur_db ?c0) table cc" "list_all (stmt_ok columns cc ucs) ?pages"
    by simp_all
  from execute_pages_upsert_ok [OF ok ne, of other ce] ep
  have c: "cur_db c = after_upsert table columns cc ucs rows db"
    "rowcount c = int (length (last ?pages))"
    by (simp_all add: concat_chunks new_cursor_def)
  let ?c1 = "new_cursor (cur_db c) :: ('a database, 'a option) cursor"
  from ok(1) c(1) have ok1: "target_ok (cur_db ?c1) table cc"
    by (simp add: new_cursor_def after_upsert_target)
  from execute_pages_upsert_ok [OF ok1 ok(2) ne, of other ce] obtain c2 where
    c2: "execute_pages ?E ?mk ?pages ?c1 = (Inr (), c2)"
      "cur_db c2 = after_upsert table columns cc ucs (concat ?pages) (cur_db ?c1)"
      "rowcount c2 = int (length (last ?pages))"
    by blast
  from c2(2) c(1) have "cur_db c2 = cur_db c"
    by (simp add: concat_chunks new_cursor_def after_upsert_idem)
  moreover from c2(1,3) c(2) v have "values_body ?E ?mk rows ?c1 = (Inr v, c2)"
    by (simp add: values_body_def execute_values_def)
  ultimately show ?thesis by blast
qed

lemma get_cursor_twice:
  assumes twice: "\<And>v c. body (new_cursor (committed w)) = (Inr v, c) \<Longrightarrow>
      \<exists>c2. body (new_cursor (cur_db c)) = (Inr v, c2) \<and> cur_db c2 = cur_db c"
  shows "committed (snd (get_cursor eng d body (snd (get_cursor eng d body w))))
           = committed (snd (get_cursor eng d body w))
       \<and> fst (get_cursor eng d body (snd (get_cursor eng d body w)))
           = fst (get_cursor eng d body w)"
proof (cases "busy w < maxconn")
  case False
  then show ?thesis
    by (simp add: get_cursor_def get_connection_def)
next
  case pool: True
  obtain r c where rc: "body (new_cursor (committed w)) = (r, c)"
    by (cases "body (new_cursor (committed w))") 
  show ?thesis
  proof (cases r)
    case (Inl e)
    with rc pool show ?thesis
      by (simp add: get_cursor_raise)
  next
    case (Inr v)
    show ?thesis
    proof (cases "commit_error eng (cur_db c)")
      case (Some e)
      with rc Inr pool show ?thesis
        by (simp add: get_cursor_commit_raise)
    next
      case None
      from twice rc Inr obtain c2 where
        c2: "body (new_cursor (cur_db c)) = (Inr v, c2)" "cur_db c2 = cur_db c"
        by blast
      let ?w1 = "w\<lparr> committed := cur_db c,
                     trace := trace w @ [EvGetConn, EvCursor d] @ map EvExecute (issued c)
                                @ [EvCommit, EvClose, EvPutConn] \<rparr>"
      from rc Inr None pool have one: "get_cursor eng d body w = (Inr v, ?w1)"
        by (simp add: get_cursor_commit)
      have "busy ?w1 < maxconn" using pool by simp
      moreover have "body (new_cursor (committed ?w1)) = (Inr v, c2)" using c2 by simp
      moreover have "commit_error eng (cur_db c2) = None" using c2 None by simp
      ultimately have "get_cursor eng d body ?w1 =
          (Inr v, ?w1\<lparr> committed := cur_db c2,
                  trace := trace ?w1 @ [EvGetConn, EvCursor d] @ map EvExecute (issued c2)
                                @ [EvCommit, EvClose, EvPutConn] \<rparr>)"
        by (rule get_cursor_commit)
      with one c2 show ?thesis by simp
    qed
  qed
qed

text \<open>
  C1: on a database that runs the upsert statement as modelled, for every table name,
  column list, conflict-column list, update-column choice and list of rows, and from every
  world: running \<open>upsert\<close> a second time with the same arguments leaves the committed
  contents exactly as the first run left them (same rows, same count, no duplicate), and
  returns what the first run returned. When the first run raises (and so commits nothing)
  the second does the same.
\<close>

theorem upsert_twice_same_state:
  "committed (snd (upsert (pg_engine other ce) table columns rows cc update_columns
       (snd (upsert (pg_engine other ce) table columns rows cc update_columns w))))
     = committed (snd (upsert (pg_engine other ce) table columns rows cc update_columns w))
   \<and> fst (upsert (pg_engine other ce) table columns rows cc update_columns
       (snd (upsert (pg_engine other ce) table columns rows cc update_columns w)))
     = fst (upsert (pg_engine other ce) table columns rows cc update_columns w)"
proof (cases "rows = []")
  case True
  then show ?thesis by (simp add: upsert_def)
next
  case False
  then show ?thesis
    unfolding upsert_def Let_def
    by (simp only: if_False) (rule get_cursor_twice, rule values_body_upsert_twice, assumption+)
qed


text \<open>
  A concrete run: two rows upserted into an empty table keyed on \<open>k\<close>; after the second
  run the table still has two rows, and both runs report two affected rows.
\<close>

theorem upsert_twice_same_state_witness:
  "fst (upsert (pg_engine (\<lambda>st db. Inl ProgrammingError) (\<lambda>db. None)) ''t'' [''k'', ''a'']
          [[Some 5, Some 10], [Some 2, Some 20]] [''k''] None
          (snd (upsert (pg_engine (\<lambda>st db. Inl ProgrammingError) (\<lambda>db. None)) ''t'' [''k'', ''a'']
             [[Some 5, Some 10], [Some 2, Some 20]] [''k''] None
             \<lparr> committed = empty_t, busy = 0, trace = [] \<rparr>))) = Inr 2
   \<and> map_option (\<lambda>t. map (\<lambda>r. (r ''k'', r ''a'')) (trows t))
        (committed (snd (upsert (pg_engine (\<lambda>st db. Inl ProgrammingError) (\<lambda>db. None)) ''t''
           [''k'', ''a''] [[Some 5, Some 10], [Some 2, Some 20]] [''k''] None
           (snd (upsert (pg_engine (\<lambda>st db. Inl ProgrammingError) (\<lambda>db. None)) ''t'' [''k'', ''a'']
              [[Some 5, Some 10], [Some 2, Some 20]] [''k''] None
              \<lparr> committed = empty_t, busy = 0, trace = [] \<rparr>)))) ''t'')
       = Some [(Some 5, Some 10), (Some 2, Some 20)]"
proof -
  let ?E = "pg_engine (\<lambda>st db. Inl ProgrammingError) (\<lambda>db. None)
              :: (nat database, nat option) engine"
  let ?rows = "[[Some 5, Some 10], [Some 2, Some (20::nat)]]"
  let ?w = "\<lparr> committed = empty_t, busy = 0, trace = [] \<rparr>"
  let ?one = "upsert ?E ''t'' [''k'', ''a''] ?rows [''k''] None ?w"
  have ch: "chunks 100 ?rows = [?rows]"
    by (simp add: chunks.simps)
  have ok: "stmt_ok [''k'', ''a''] [''k''] [''a''] ?rows"
    by (simp add: stmt_ok_def row_key_def row_of_def)
  have tgt: "target_ok empty_t ''t'' [''k'']"
    by (simp add: target_ok_def empty_t_def)
  have body: "values_body ?E (UpsertValues ''t'' [''k'', ''a''] [''k''] [''a'']) ?rows
      (new_cursor empty_t)
    = (Inr 2, \<lparr> cur_db = after_upsert ''t'' [''k'', ''a''] [''k''] [''a''] ?rows empty_t,
         rowcount = 2, result_set = None,
         issued = [sql_text (UpsertValues ''t'' [''k'', ''a''] [''k''] [''a''] ?rows)] \<rparr>)"
    using ok tgt
    by (simp add: values_body_def execute_values_def ch cursor_execute_upsert
        on_conflict_do_update_ok new_cursor_def)
  have first: "fst ?one = Inr 2
     \<and> committed (snd ?one) = after_upsert ''t'' [''k'', ''a''] [''k''] [''a''] ?rows empty_t"
    using body by (simp add: upsert_def get_cursor_commit maxconn_def pg_engine_def)
  have tbl: "map_option (\<lambda>t. map (\<lambda>r. (r ''k'', r ''a'')) (trows t))
      (after_upsert ''t'' [''k'', ''a''] [''k''] [''a''] ?rows empty_t ''t'')
    = Some [(Some 5, Some 10), (Some 2, Some 20)]"
    by (simp add: after_upsert_def empty_t_def upsert_row_def row_key_def row_of_def)
  from upsert_twice_same_state [of "\<lambda>st db. Inl ProgrammingError" "\<lambda>db. None" "''t''"
      "[''k'', ''a'']" ?rows "[''k'']" None ?w] first tbl
  show ?thesis by simp
qed

section \<open>Partial failure in the persisting loop\<close>

lemma update_stats:
  "stats (update n r) = (stats r)\<lparr> processed_items := processed_items (stats r) + n \<rparr>"
  by (simp add: update_def Let_def split: option.splits prod.splits)

lemma record_success_stats:
  "stats (record_success p) =
     (stats p)\<lparr> successful_items := successful_items (stats p) + 1,
                processed_items := processed_items (stats p) + 1 \<rparr>"
  by (simp add: record_success_def update_stats)

lemma record_failure_stats:
  "stats (record_failure p) =
     (stats p)\<lparr> failed_items := failed_items (stats p) + 1,
                processed_items := processed_items (stats p) + 1 \<rparr>"
  by (simp add: record_failure_def update_stats)

lemma bill_failed_stats:
  "stats (bill_failed lib bill e p) =
     (stats p)\<lparr> failed_items := failed_items (stats p) + 1,
                processed_items := processed_items (stats p) + 1,
                errors := errors (stats p)
                  @ [''Bill '' @ py_format lib (dict_get bill ''number'') @ '': '' @ exn_str lib e] \<rparr>"
  by (simp add: bill_failed_def record_error_def Let_def record_failure_stats)

lemma persist_bills_append:
  "persist_bills lib congress (pre @ post) acc
     = persist_bills lib congress post (persist_bills lib congress pre acc)"
proof (induction pre arbitrary: acc)
  case Nil
  show ?case by simp
next
  case (Cons b pre)
  obtain vals p where acc: "acc = (vals, p)" by (cases acc)
  show ?case
    by (cases "map_bill lib congress b") (simp_all add: acc Cons.IH)
qed

lemma persist_bills_values:
  "fst (persist_bills lib congress bills (vals, p))
     = vals @ map projr (filter (\<lambda>r. \<not> isl r) (map (map_bill lib congress) bills))"
proof (induction bills arbitrary: vals p)
  case Nil
  show ?case by simp
next
  case (Cons b bills)
  show ?case
    by (cases "map_bill lib congress b") (simp_all add: Cons.IH)
qed

lemma persist_bills_counts:
  "successful_items (stats (snd (persist_bills lib congress bills (vals, p))))
     = successful_items (stats p)
       + int (length (filter (\<lambda>b. \<not> isl (map_bill lib congress b)) bills))
   \<and> failed_items (stats (snd (persist_bills lib congress bills (vals, p))))
     = failed_items (stats p)
       + int (length (filter (\<lambda>b. isl (map_bill lib congress b)) bills))
   \<and> processed_items (stats (snd (persist_bills lib congress bills (vals, p))))
     = processed_items (stats p) + int (length bills)
   \<and> length (errors (stats (snd (persist_bills lib congress bills (vals, p)))))
     = length (errors (stats p))
       + length (filter (\<lambda>b. isl (map_bill lib congress b)) bills)"
proof (induction bills arbitrary: vals p)
  case Nil
  show ?case by simp
next
  case (Cons b bills)
  show ?case
  proof (cases "map_bill lib congress b")
    case (Inl e)
    with Cons.IH [of vals "bill_failed lib b e p"] show ?thesis
      by (simp add: bill_failed_stats)
  next
    case (Inr row)
    with Cons.IH [of "vals @ [row]" "record_success p"] show ?thesis
      by (simp add: record_success_stats)
  qed
qed

lemma persist_bills_after_failure:
  assumes "map_bill lib congress b = Inl e"
  shows "persist_bills lib congress (pre @ b # post) (vals, p)
     = persist_bills lib congress post
         (fst (persist_bills lib congress pre (vals, p)),
          bill_failed lib b e (snd (persist_bills lib congress pre (vals, p))))"
proof -
  obtain v1 p1 where pre: "persist_bills lib congress pre (vals, p) = (v1, p1)"
    by (cases "persist_bills lib congress pre (vals, p)")
  with assms show ?thesis
    by (simp add: persist_bills_append)
qed

lemma persist_five_third_fails:
  assumes "map_bill lib congress b1 = Inr r1" and "map_bill lib congress b2 = Inr r2"
    and "map_bill lib congress b3 = Inl e"
    and "map_bill lib congress b4 = Inr r4" and "map_bill lib congress b5 = Inr r5"
  shows "persist_bills lib congress [b1, b2, b3, b4, b5] ([], p)
     = ([r1, r2, r4, r5],
        record_success (record_success
          (bill_failed lib b3 e (record_success (record_success p)))))"
  using assms by simp

text \<open>
  C5: the loop over a batch never stops at a failing item. For any batch, the rows
  collected are those of exactly the items whose mapping returns, in batch order; the
  success count grows by the number of such items, the failure count and the error list
  by the number of items whose mapping raises (one failure and one message each), and
  the processed count by the size of the batch. After an item that raises, the rest of the
  batch is processed as it would be otherwise. In particular, of five items of which only
  the third raises, the rows of items 1, 2, 4 and 5 are collected in that order, with 4
  successes and 1 failure recorded.
\<close>

theorem partial_failure_isolated:
  "fst (persist_bills lib congress bills (vals, p))
     = vals @ map projr (filter (\<lambda>r. \<not> isl r) (map (map_bill lib congress) bills))
   \<and> successful_items (stats (snd (persist_bills lib congress bills (vals, p))))
     = successful_items (stats p)
       + int (length (filter (\<lambda>b. \<not> isl (map_bill lib congress b)) bills))
   \<and> failed_items (stats (snd (persist_bills lib congress bills (vals, p))))
     = failed_items (stats p)
       + int (length (filter (\<lambda>b. isl (map_bill lib congress b)) bills))
   \<and> processed_items (stats (snd (persist_bills lib congress bills (vals, p))))
     = processed_items (stats p) + int (length bills)
   \<and> length (errors (stats (snd (persist_bills lib congress bills (vals, p)))))
     = length (errors (stats p))
       + length (filter (\<lambda>b. isl (map_bill lib congress b)) bills)
   \<and> (map_bill lib congress b = Inl e \<longrightarrow>
        persist_bills lib congress (pre @ b # post) (vals, p)
          = persist_bills lib congress post
              (fst (persist_bills lib congress pre (vals, p)),
               bill_failed lib b e (snd (persist_bills lib congress pre (vals, p)))))
   \<and> (map_bill lib congress b1 = Inr r1 \<and> map_bill lib congress b2 = Inr r2
        \<and> map_bill lib congress b3 = Inl e3
        \<and> map_bill lib congress b4 = Inr r4 \<and> map_bill lib congress b5 = Inr r5 \<longrightarrow>
        fst (persist_bills lib congress [b1, b2, b3, b4, b5] ([], p)) = [r1, r2, r4, r5]
        \<and> successful_items (stats (snd (persist_bills lib congress [b1, b2, b3, b4, b5] ([], p))))
            = successful_items (stats p) + 4
        \<and> failed_items (stats (snd (persist_bills lib congress [b1, b2, b3, b4, b5] ([], p))))
            = failed_items (stats p) + 1
        \<and> processed_items (stats (snd (persist_bills lib congress [b1, b2, b3, b4, b5] ([], p))))
            = processed_items (stats p) + 5)"
proof -
  have five: "map_bill lib congress b1 = Inr r1 \<and> map_bill lib congress b2 = Inr r2
        \<and> map_bill lib congress b3 = Inl e3
        \<and> map_bill lib congress b4 = Inr r4 \<and> map_bill lib congress b5 = Inr r5 \<longrightarrow>
        fst (persist_bills lib congress [b1, b2, b3, b4, b5] ([], p)) = [r1, r2, r4, r5]
        \<and> successful_items (stats (snd (persist_bills lib congress [b1, b2, b3, b4, b5] ([], p))))
            = successful_items (stats p) + 4
        \<and> failed_items (stats (snd (persist_bills lib congress [b1, b2, b3, b4, b5] ([], p))))
            = failed_items (stats p) + 1
        \<and> processed_items (stats (snd (persist_bills lib congress [b1, b2, b3, b4, b5] ([], p))))
            = processed_items (stats p) + 5"
    by (simp add: persist_five_third_fails record_success_stats bill_failed_stats)
  have after: "map_bill lib congress b = Inl e \<longrightarrow>
        persist_bills lib congress (pre @ b # post) (vals, p)
          = persist_bills lib congress post
              (fst (persist_bills lib congress pre (vals, p)),
               bill_failed lib b e (snd (persist_bills lib congress pre (vals, p))))"
    using persist_bills_after_failure by blast
  from persist_bills_values [of lib congress bills vals p]
    persist_bills_counts [of lib congress bills vals p] after five
  show ?thesis by blast
qed

text \<open>
  A batch of five bills; the third has \<open>"latestAction": null\<close>, on which
  \<open>latest_action.get\<close> raises.
\<close>

lemma str_int_118: "str_int 118 = ''118''"
  by (simp add: str_int_def str_nat.simps digit_char_def)

lemma map_good_bill: "map_bill plain_lib 118 (good_bill n) = Inr (good_row n)"
  by (simp add: map_bill_def good_bill_def good_row_def plain_lib_def and_then_def
      dict_get_def dict_get_default_def opt_date_def opt_datetime_def str_int_118)

lemma map_bad_bill: "map_bill plain_lib 118 (bad_bill n) = Inl AttributeError"
  by (simp add: map_bill_def bad_bill_def plain_lib_def and_then_def
      dict_get_def dict_get_default_def)

text \<open>The batch run from a fresh reporter.\<close>

theorem partial_failure_isolated_witness:
  "fst (persist_bills plain_lib 118
          [good_bill 1, good_bill 2, bad_bill 3, good_bill 4, good_bill 5]
          ([], new_reporter False 0))
     = [good_row 1, good_row 2, good_row 4, good_row 5]
   \<and> successful_items (stats (snd (persist_bills plain_lib 118
          [good_bill 1, good_bill 2, bad_bill 3, good_bill 4, good_bill 5]
          ([], new_reporter False 0)))) = 4
   \<and> failed_items (stats (snd (persist_bills plain_lib 118
          [good_bill 1, good_bill 2, bad_bill 3, good_bill 4, good_bill 5]
          ([], new_reporter False 0)))) = 1
   \<and> processed_items (stats (snd (persist_bills plain_lib 118
          [good_bill 1, good_bill 2, bad_bill 3, good_bill 4, good_bill 5]
          ([], new_reporter False 0)))) = 5"
proof -
  have s0: "successful_items (stats (new_reporter False 0)) = 0"
    "failed_items (stats (new_reporter False 0)) = 0"
    "processed_items (stats (new_reporter False 0)) = 0"
    by (simp_all add: new_reporter_def new_stats_def)
  from partial_failure_isolated [where lib = plain_lib and congress = 118
      and ?b1.0 = "good_bill 1" and ?b2.0 = "good_bill 2" and ?b3.0 = "bad_bill 3"
      and ?b4.0 = "good_bill 4" and ?b5.0 = "good_bill 5"
      and ?r1.0 = "good_row 1" and ?r2.0 = "good_row 2" and ?e3.0 = AttributeError
      and ?r4.0 = "good_row 4" and ?r5.0 = "good_row 5" and p = "new_reporter False 0"]
  show ?thesis
    by (simp add: map_good_bill map_bad_bill s0)
qed

section \<open>One iteration of the pagination loop\<close>


lemma loop_raise:
  "\<not> max_reached max_pages page \<Longrightarrow>
   fetch_page get endpoint page_size kwargs offset offset_mark u = (Inl e, u1) \<Longrightarrow>
     paginate_loop c get endpoint page_size max_pages kwargs page offset offset_mark acc u
       = Some (acc, Some e, u1)"
  by (subst paginate_loop.simps) (simp add: max_reached_def)

lemma loop_stop_empty:
  "\<not> max_reached max_pages page \<Longrightarrow>
   fetch_page get endpoint page_size kwargs offset offset_mark u = (Inr response, u1) \<Longrightarrow>
   extract_items c response = [] \<Longrightarrow>
     paginate_loop c get endpoint page_size max_pages kwargs page offset offset_mark acc u
       = Some (acc, None, u1)"
  by (subst paginate_loop.simps) (simp add: max_reached_def)

lemma loop_stop_next:
  "\<not> max_reached max_pages page \<Longrightarrow>
   fetch_page get endpoint page_size kwargs offset offset_mark u = (Inr response, u1) \<Longrightarrow>
   extract_items c response \<noteq> [] \<Longrightarrow> \<not> has_next c response \<Longrightarrow>
     paginate_loop c get endpoint page_size max_pages kwargs page offset offset_mark acc u
       = Some (acc @ extract_items c response, None, u1)"
  by (subst paginate_loop.simps)
    (simp add: max_reached_def has_next_def Let_def split: option.splits)

lemma loop_continue:
  "\<not> max_reached max_pages page \<Longrightarrow>
   fetch_page get endpoint page_size kwargs offset offset_mark u = (Inr response, u1) \<Longrightarrow>
   extract_items c response \<noteq> [] \<Longrightarrow> get_next_page c response = Some next_page \<Longrightarrow>
   next_page \<noteq> [] \<Longrightarrow>
     paginate_loop c get endpoint page_size max_pages kwargs page offset offset_mark acc u
       = paginate_loop c get endpoint page_size max_pages kwargs (page + 1) (offset + page_size)
           (dict_get_default next_page ''offsetMark'' offset_mark)
           (acc @ extract_items c response) u1"
  by (subst paginate_loop.simps) (simp add: max_reached_def Let_def)

section \<open>Pagination over a finite upstream\<close>








section \<open>Cursor style first, offset style as the fallback\<close>

lemma fetch_page_cursor_ok:
  assumes "get u endpoint (cursor_params page_size offset_mark kwargs) = (Inr response, u1)"
  shows "fetch_page (recording get) endpoint page_size kwargs offset offset_mark (reqs, u)
     = (Inr response,
        (reqs @ [(endpoint, cursor_params page_size offset_mark kwargs, False)], u1))"
  using assms by (simp add: fetch_page_def recording_def)

lemma fetch_page_fallback:
  assumes "get u endpoint (cursor_params page_size offset_mark kwargs) = (Inl e, u1)"
    and "get u1 endpoint (offset_params page_size offset kwargs) = (r2, u2)"
  shows "fetch_page (recording get) endpoint page_size kwargs offset offset_mark (reqs, u)
     = (r2,
        (reqs @ [(endpoint, cursor_params page_size offset_mark kwargs, True),
                (endpoint, offset_params page_size offset kwargs, isl r2)], u2))"
  using assms by (simp add: fetch_page_def recording_def)

lemma loop_after_fetch:
  assumes "\<not> max_reached max_pages page"
    and "fetch_page get endpoint page_size kwargs offset offset_mark u = (Inr response, u1)"
  shows "paginate_loop c get endpoint page_size max_pages kwargs page offset offset_mark acc u
     = (if extract_items c response = [] then Some (acc, None, u1)
        else if has_next c response
        then paginate_loop c get endpoint page_size max_pages kwargs (page + 1)
               (offset + page_size)
               (dict_get_default (the (get_next_page c response)) ''offsetMark'' offset_mark)
               (acc @ extract_items c response) u1
        else Some (acc @ extract_items c response, None, u1))"
proof (cases "extract_items c response = []")
  case True
  with loop_stop_empty [OF assms] show ?thesis by simp
next
  case items: False
  show ?thesis
  proof (cases "has_next c response")
    case False
    with items loop_stop_next [OF assms items] show ?thesis by simp
  next
    case True
    then obtain np where np: "get_next_page c response = Some np" "np \<noteq> []"
      by (auto simp add: has_next_def split: option.splits)
    with items True loop_continue [OF assms items np] show ?thesis by simp
  qed
qed

text \<open>
  C7: for each page request the loop first sends the cursor-style request (\<open>pageSize\<close>
  and \<open>offsetMark\<close>, merged with the caller's parameters). If it returns, no other
  request is made for that page. If it raises, exactly one more request is made for the
  same page, offset style (\<open>limit\<close> and \<open>offset\<close>), and its outcome, response or
  exception, is the outcome of the page request. Whichever request produced the response,
  the items are \<open>_extract_items\<close> of it and the continuation is decided by
  \<open>_get_next_page\<close> of it; an exception of the fallback ends the generator.
\<close>

theorem cursor_first_offset_fallback:
  "(get u endpoint (cursor_params page_size offset_mark kwargs) = (Inr response, u1) \<longrightarrow>
      fetch_page (recording get) endpoint page_size kwargs offset offset_mark (reqs, u)
        = (Inr response,
           (reqs @ [(endpoint, cursor_params page_size offset_mark kwargs, False)], u1)))
   \<and> (get u endpoint (cursor_params page_size offset_mark kwargs) = (Inl e, u1)
        \<and> get u1 endpoint (offset_params page_size offset kwargs) = (r2, u2) \<longrightarrow>
      fetch_page (recording get) endpoint page_size kwargs offset offset_mark (reqs, u)
        = (r2,
           (reqs @ [(endpoint, cursor_params page_size offset_mark kwargs, True),
                   (endpoint, offset_params page_size offset kwargs, isl r2)], u2)))
   \<and> cursor_params page_size offset_mark []
        = [(''pageSize'', JInt page_size), (''offsetMark'', offset_mark)]
   \<and> offset_params page_size offset [] = [(''limit'', JInt page_size), (''offset'', JInt offset)]
   \<and> (\<not> max_reached max_pages page
        \<and> fetch_page g endpoint page_size kwargs offset offset_mark s = (Inr resp, s1) \<longrightarrow>
      paginate_loop c g endpoint page_size max_pages kwargs page offset offset_mark acc s
        = (if extract_items c resp = [] then Some (acc, None, s1)
           else if has_next c resp
           then paginate_loop c g endpoint page_size max_pages kwargs (page + 1)
                  (offset + page_size)
                  (dict_get_default (the (get_next_page c resp)) ''offsetMark'' offset_mark)
                  (acc @ extract_items c resp) s1
           else Some (acc @ extract_items c resp, None, s1)))
   \<and> (\<not> max_reached max_pages page
        \<and> fetch_page g endpoint page_size kwargs offset offset_mark s = (Inl e', s1) \<longrightarrow>
      paginate_loop c g endpoint page_size max_pages kwargs page offset offset_mark acc s
        = Some (acc, Some e', s1))"
proof (intro conjI impI)
  assume "get u endpoint (cursor_params page_size offset_mark kwargs) = (Inr response, u1)"
  then show "fetch_page (recording get) endpoint page_size kwargs offset offset_mark (reqs, u)
        = (Inr response,
           (reqs @ [(endpoint, cursor_params page_size offset_mark kwargs, False)], u1))"
    by (rule fetch_page_cursor_ok)
next
  assume "get u endpoint (cursor_params page_size offset_mark kwargs) = (Inl e, u1)
        \<and> get u1 endpoint (offset_params page_size offset kwargs) = (r2, u2)"
  then show "fetch_page (recording get) endpoint page_size kwargs offset offset_mark (reqs, u)
        = (r2,
           (reqs @ [(endpoint, cursor_params page_size offset_mark kwargs, True),
                   (endpoint, offset_params page_size offset kwargs, isl r2)], u2))"
    by (elim conjE) (rule fetch_page_fallback)
next
  show "cursor_params page_size offset_mark []
        = [(''pageSize'', JInt page_size), (''offsetMark'', offset_mark)]"
    by (simp add: cursor_params_def dict_merge_def)
next
  show "offset_params page_size offset [] = [(''limit'', JInt page_size), (''offset'', JInt offset)]"
    by (simp add: offset_params_def dict_merge_def)
next
  assume "\<not> max_reached max_pages page
        \<and> fetch_page g endpoint page_size kwargs offset offset_mark s = (Inr resp, s1)"
  then show "paginate_loop c g endpoint page_size max_pages kwargs page offset offset_mark acc s
        = (if extract_items c resp = [] then Some (acc, None, s1)
           else if has_next c resp
           then paginate_loop c g endpoint page_size max_pages kwargs (page + 1)
                  (offset + page_size)
                  (dict_get_default (the (get_next_page c resp)) ''offsetMark'' offset_mark)
                  (acc @ extract_items c resp) s1
           else Some (acc @ extract_items c resp, None, s1))"
    by (elim conjE) (rule loop_after_fetch)
next
  assume "\<not> max_reached max_pages page
        \<and> fetch_page g endpoint page_size kwargs offset offset_mark s = (Inl e', s1)"
  then show "paginate_loop c g endpoint page_size max_pages kwargs page offset offset_mark acc s
        = Some (acc, Some e', s1)"
    by (elim conjE) (rule loop_raise)
qed

text \<open>
  A concrete page request against an upstream that rejects \<open>offsetMark\<close>: the cursor
  request fails, the offset request is made once and answers, and the page's items come
  from \<open>_extract_items\<close>.
\<close>

theorem cursor_first_offset_fallback_witness:
  "fetch_page (recording rejects_offset_mark) ''bill'' 2 [] 0 (JStr ''*'') ([], 0)
     = (Inr [(''results'', JList [JInt 7])],
        ([(''bill'', [(''pageSize'', JInt 2), (''offsetMark'', JStr ''*'')], True),
          (''bill'', [(''limit'', JInt 2), (''offset'', JInt 0)], False)], 2))
   \<and> paginate results_client (recording rejects_offset_mark) ''bill'' 2 (Some 1) [] ([], 0)
     = Some ([JInt 7], None,
        ([(''bill'', [(''pageSize'', JInt 2), (''offsetMark'', JStr ''*'')], True),
          (''bill'', [(''limit'', JInt 2), (''offset'', JInt 0)], False)], 2))"
proof -
  let ?resp = "[(''results'', JList [JInt 7])]"
  let ?log = "[(''bill'', [(''pageSize'', JInt 2), (''offsetMark'', JStr ''*'')], True),
               (''bill'', [(''limit'', JInt 2), (''offset'', JInt 0)], False)]"
  let ?g = "recording rejects_offset_mark"
  note t = cursor_first_offset_fallback [where get = rejects_offset_mark and u = 0
      and endpoint = "''bill''" and page_size = 2 and offset_mark = "JStr ''*''"
      and kwargs = "[]" and offset = 0 and reqs = "[]" and e = "HTTPError 400" and ?u1.0 = 1
      and ?r2.0 = "Inr ?resp" and ?u2.0 = 2
      and g = ?g and s = "([], 0)" and resp = ?resp and ?s1.0 = "(?log, 2)"
      and c = results_client and max_pages = "Some 1" and page = 0 and acc = "[]"]
  have g1: "rejects_offset_mark 0 ''bill'' (cursor_params 2 (JStr ''*'') [])
      = (Inl (HTTPError 400), 1)"
    by (simp add: rejects_offset_mark_def cursor_params_def dict_merge_def)
  have g2: "rejects_offset_mark 1 ''bill'' (offset_params 2 0 []) = (Inr ?resp, 2)"
    by (simp add: rejects_offset_mark_def offset_params_def dict_merge_def)
  from t [THEN conjunct2, THEN conjunct1] g1 g2
  have f: "fetch_page ?g ''bill'' 2 [] 0 (JStr ''*'') ([], 0) = (Inr ?resp, (?log, 2))"
    by (simp add: cursor_params_def offset_params_def dict_merge_def)
  have nr: "\<not> max_reached (Some 1) 0"
    by (simp add: max_reached_def)
  have it: "extract_items results_client ?resp = [JInt 7]"
    by (simp add: results_client_def dict_get_def)
  have nx: "\<not> has_next results_client ?resp"
    by (simp add: has_next_def results_client_def dict_get_def)
  from t [THEN conjunct2, THEN conjunct2, THEN conjunct2, THEN conjunct2, THEN conjunct1] nr f
  have "paginate_loop results_client ?g ''bill'' 2 (Some 1) [] 0 0 (JStr ''*'') [] ([], 0)
       = (if extract_items results_client ?resp = [] then Some ([], None, (?log, 2))
          else if has_next results_client ?resp
          then paginate_loop results_client ?g ''bill'' 2 (Some 1) [] (0 + 1) (0 + 2)
                 (dict_get_default (the (get_next_page results_client ?resp)) ''offsetMark''
                    (JStr ''*''))
                 ([] @ extract_items results_client ?resp) (?log, 2)
          else Some ([] @ extract_items results_client ?resp, None, (?log, 2)))"
    by blast
  also have "\<dots> = Some ([JInt 7], None, (?log, 2))"
    using it nx by simp
  finally show ?thesis
    using f by (simp add: paginate_def)
qed

section \<open>Merging parameters twice, and single attempts of a request\<close>











lemma attempt_returns:
  assumes "session_request send (build_request cl endpoint method params data kwargs) w
             = (Inr r, w1)"
    and "status_code r < 400"
  shows "make_request_from cl send py_int endpoint method params data kwargs attempt w
           = Some (Inr r, w1)"
  using assms
  by (subst make_request_from.simps) (simp add: raise_for_status_def)





section \<open>A 503 with Retry-After\<close>




text \<open>
  Two concrete calls at clock 100: a 503 with \<open>Retry-After: 2\<close> followed by a 200, and
  the same 503 followed by two connection errors and a 200.
\<close>

lemma demo_build: "build_request demo_client ''/bill'' ''GET'' None None [] = demo_request"
  by (simp add: build_request_def demo_client_def init_client_def demo_request_def
      rstrip_slash_def lstrip_slash_def dict_merge_def)


section \<open>The rate limit\<close>

text \<open>
  C4 does not hold of the code. The client below allows one call per 3600 seconds; two
  \<open>get\<close> calls made one after the other at time 100 are both sent at time 100, with no
  sleep in between. Nothing in \<open>_make_request\<close> reads \<open>rate_limit_calls\<close> or
  \<open>rate_limit_period\<close>.
\<close>

theorem rate_limit_not_enforced:
  "rate_limit_calls demo_client = 1 \<and> rate_limit_period demo_client = 3600
   \<and> Option.bind
        (client_get demo_client (scripted [Inr answer, Inr answer]) int_two ''/bill'' []
           \<lparr> clock = 100, upstream = 0, sent = [], sleeps = [] \<rparr>)
        (\<lambda>(res, w1). client_get demo_client (scripted [Inr answer, Inr answer]) int_two
                        ''/bill'' [] w1)
     = Some (Inr [(''bills'', JList [])],
         \<lparr> clock = 100, upstream = 2, sent = [(100, demo_request), (100, demo_request)],
           sleeps = [] \<rparr>)"
proof -
  let ?s = "scripted [Inr answer, Inr answer]"
  let ?w0 = "\<lparr> clock = 100, upstream = 0::nat, sent = [], sleeps = [] \<rparr>"
  let ?w1 = "\<lparr> clock = 100, upstream = 1::nat, sent = [(100, demo_request)], sleeps = [] \<rparr>"
  let ?w2 = "\<lparr> clock = 100, upstream = 2::nat,
               sent = [(100, demo_request), (100, demo_request)], sleeps = [] \<rparr>"
  have ok: "status_code answer < 400" by (simp add: answer_def)
  have "session_request ?s (build_request demo_client ''/bill'' ''GET'' None None []) ?w0
      = (Inr answer, ?w1)"
    by (simp add: session_request_def scripted_def demo_build)
  from attempt_returns [OF this ok]
  have g1: "client_get demo_client ?s int_two ''/bill'' [] ?w0 = Some (Inr [(''bills'', JList [])], ?w1)"
    by (simp add: client_get_def make_request_def answer_def)
  have "session_request ?s (build_request demo_client ''/bill'' ''GET'' None None []) ?w1
      = (Inr answer, ?w2)"
    by (simp add: session_request_def scripted_def demo_build)
  from attempt_returns [OF this ok]
  have g2: "client_get demo_client ?s int_two ''/bill'' [] ?w1 = Some (Inr [(''bills'', JList [])], ?w2)"
    by (simp add: client_get_def make_request_def answer_def)
  from g1 g2 show ?thesis
    by (simp add: demo_client_def init_client_def)
qed

end
